theory Spec2Isabelle
  imports Main "HOL-Library.Sublist"
begin

section \<open>Values, dictionaries and exceptions\<close>

text \<open>
  The records delivered by the source API are JSON-like Python values. A Python \<open>dict\<close>
  keeps its insertion order, and the order of \<open>attributes.items()\<close> decides which write
  comes last, so a dictionary is an association list with distinct keys.
  A string is the list of the bytes of its UTF-8 encoding. The whitespace class of
  \<open>str.split\<close> below is the ASCII part of Python's Unicode class, and floating-point
  values are not modelled.
\<close>

datatype pyval =
    PNone
  | PBool bool
  | PInt int
  | PStr string
  | PList "pyval list"
  | PDict "(string \<times> pyval) list"

type_synonym pydict = "(string \<times> pyval) list"

text \<open>Python truthiness, as used by \<open>if author_id:\<close> and friends.\<close>

fun truthy :: "pyval \<Rightarrow> bool" where
  "truthy PNone = False"
| "truthy (PBool b) = b"
| "truthy (PInt i) = (i \<noteq> 0)"
| "truthy (PStr s) = (s \<noteq> [])"
| "truthy (PList xs) = (xs \<noteq> [])"
| "truthy (PDict d) = (d \<noteq> [])"

text \<open>\<open>d.get(k)\<close>: the value, or \<open>None\<close> for a missing key.\<close>

definition py_get :: "pydict \<Rightarrow> string \<Rightarrow> pyval" where
  "py_get d k = (case map_of d k of None \<Rightarrow> PNone | Some v \<Rightarrow> v)"

text \<open>\<open>d[k] = v\<close>: an existing key keeps its position, a new key goes to the end.\<close>

fun dict_set :: "('k \<times> 'v) list \<Rightarrow> 'k \<Rightarrow> 'v \<Rightarrow> ('k \<times> 'v) list" where
  "dict_set [] k v = [(k, v)]"
| "dict_set ((k', v') # d) k v = (if k' = k then (k, v) # d else (k', v') # dict_set d k v)"

text \<open>\<open>{**d, **e}\<close>: the entries of \<open>e\<close> are written over \<open>d\<close> in order.\<close>

fun dict_merge :: "pydict \<Rightarrow> pydict \<Rightarrow> pydict" where
  "dict_merge d [] = d"
| "dict_merge d ((k, v) # e) = dict_merge (dict_set d k v) e"

datatype neo_problem = PrimaryNotInAttributes string | PrimaryKeyMissing

datatype config_problem =
    NotFound string
  | SectionMissing string
  | ParameterMissing string string

datatype exn =
    NeoGraphObjectException neo_problem
  | ConfigurationException config_problem
  | TypeError
  | KeyError
  | IndexError
  | AttributeError
  | External string

text \<open>\<open>v[k]\<close> on a value expected to be a dictionary.\<close>

fun py_item :: "pyval \<Rightarrow> string \<Rightarrow> exn + pyval" where
  "py_item (PDict d) k = (case map_of d k of None \<Rightarrow> Inl KeyError | Some v \<Rightarrow> Inr v)"
| "py_item _ k = Inl TypeError"

section \<open>Entity schema (models.py)\<close>

text \<open>
  Each class body declares attributes: \<open>Property(key)\<close> stores the attribute under the
  node property \<open>key\<close>, \<open>RelatedTo\<close> and \<open>RelatedFrom\<close> declare relationship sets.
  The tables list every declaration of \<open>models.py\<close> in source order.
\<close>

datatype entity =
    Project | User | Label | Milestone | Note
  | Issue | MergeRequest | Commit | AwardEmoji | Change

datatype field =
    Property string
  | RelatedTo string
  | RelatedFrom string string

definition Project_fields :: "(string \<times> field) list" where
  "Project_fields =
    [(''id'', Property ''id''),
     (''name'', Property ''name''),
     (''description'', Property ''description''),
     (''default_branch'', Property ''default_branch''),
     (''created_at'', Property ''created_at''),
     (''last_activity_at'', Property ''last_activity_at''),
     (''namespace_name'', Property ''namespace_name''),
     (''has_milestone'', RelatedFrom ''Milestone'' ''BELONGS_TO''),
     (''has_issue'', RelatedFrom ''Issue'' ''BELONGS_TO''),
     (''has_member'', RelatedFrom ''User'' ''BELONGS_TO''),
     (''has_merge'', RelatedFrom ''MergeRequest'' ''BELONGS_TO''),
     (''has_note'', RelatedFrom ''Note'' ''BELONGS_TO'')]"

definition User_fields :: "(string \<times> field) list" where
  "User_fields =
    [(''id'', Property ''id''),
     (''name'', Property ''name''),
     (''username'', Property ''username''),
     (''state'', Property ''state''),
     (''belongs_to'', RelatedTo ''Project''),
     (''is_author'', RelatedFrom ''Issue'' ''CREATED_BY''),
     (''is_merge_author'', RelatedFrom ''MergeRequest'' ''CREATED_BY''),
     (''was_issue_assigned'', RelatedFrom ''Issue'' ''WAS_ASSIGNED_TO''),
     (''was_merge_assigned'', RelatedFrom ''MergeRequest'' ''WAS_ASSIGNED_TO''),
     (''is_issue_assigned'', RelatedFrom ''Issue'' ''IS_ASSIGNED''),
     (''is_merge_assigned'', RelatedFrom ''MergeRequest'' ''IS_ASSIGNED''),
     (''closed_issue'', RelatedFrom ''Issue'' ''CLOSED_BY''),
     (''closed_merge'', RelatedFrom ''MergeRequest'' ''CLOSED_BY''),
     (''merged_by'', RelatedFrom ''MergeRequest'' ''MERGED_BY''),
     (''commit_author'', RelatedFrom ''ProjectCommit'' ''IS_AUTHOR''),
     (''committer'', RelatedFrom ''ProjectCommit'' ''IS_COMMITTER''),
     (''note_author'', RelatedFrom ''Note'' ''HAS_AUTHOR''),
     (''awarded_emoji'', RelatedFrom ''AwardEmoji'' ''WAS_AWARDED_BY''),
     (''approved_merge'', RelatedFrom ''MergeRequest'' ''APPROVED_BY'')]"

definition Label_fields :: "(string \<times> field) list" where
  "Label_fields =
    [(''id'', Property ''id''),
     (''name'', Property ''name''),
     (''color'', Property ''color''),
     (''description'', Property ''description''),
     (''open_merge_requests_count'', Property ''open_merge_requests_count''),
     (''open_issues_requests_count'', Property ''open_issues_requests_count''),
     (''closed_issues_requests_count'', Property ''closed_issues_requests_count''),
     (''is_project_label'', Property ''is_project_label''),
     (''belongs_to'', RelatedTo ''Project''),
     (''is_annotated'', RelatedFrom ''Issue'' ''HAS_LABEL''),
     (''is_merge_annotated'', RelatedFrom ''MergeRequest'' ''HAS_LABEL'')]"

definition Milestone_fields :: "(string \<times> field) list" where
  "Milestone_fields =
    [(''id'', Property ''id''),
     (''iid'', Property ''iid''),
     (''title'', Property ''title''),
     (''description'', Property ''description''),
     (''state'', Property ''state''),
     (''created_at'', Property ''created_at''),
     (''updated_at'', Property ''updated_at''),
     (''due_date'', Property ''due_date''),
     (''start_date'', Property ''start_date''),
     (''belongs_to'', RelatedTo ''Project''),
     (''is_annotated'', RelatedFrom ''Issue'' ''HAS_MILESTONE''),
     (''is_merge_annotated'', RelatedFrom ''MergeRequest'' ''HAS_MILESTONE'')]"

definition Note_fields :: "(string \<times> field) list" where
  "Note_fields =
    [(''id'', Property ''id''),
     (''type'', Property ''type''),
     (''body'', Property ''body''),
     (''attachment'', Property ''attachment''),
     (''system'', Property ''system''),
     (''resolvable'', Property ''resolvable''),
     (''created_at'', Property ''created_at''),
     (''updated_at'', Property ''updated_at''),
     (''has_author'', RelatedTo ''User''),
     (''at_issue'', RelatedFrom ''Issue'' ''HAS_NOTE''),
     (''at_merge'', RelatedFrom ''MergeRequest'' ''HAS_NOTE''),
     (''belongs_to'', RelatedTo ''Project''),
     (''was_awarded_with'', RelatedTo ''AwardEmoji'')]"

definition Issue_fields :: "(string \<times> field) list" where
  "Issue_fields =
    [(''id'', Property ''id''),
     (''iid'', Property ''iid''),
     (''title'', Property ''title''),
     (''description'', Property ''description''),
     (''state'', Property ''state''),
     (''weight'', Property ''weight''),
     (''merge_requests_count'', Property ''merge_requests_count''),
     (''created_at'', Property ''created_at''),
     (''updated_at'', Property ''updated_at''),
     (''closed_at'', Property ''updated_at''),
     (''confidential'', Property ''confidential''),
     (''due_date'', Property ''due_date''),
     (''upvotes'', Property ''upvotes''),
     (''downvotes'', Property ''downvotes''),
     (''has_tasks'', Property ''has_tasks''),
     (''task_status'', Property ''task_status''),
     (''task_count'', Property ''task_count''),
     (''task_completed'', Property ''task_completed''),
     (''has_label'', RelatedTo ''Label''),
     (''has_milestone'', RelatedTo ''Milestone''),
     (''belongs_to'', RelatedTo ''Project''),
     (''created_by'', RelatedTo ''User''),
     (''was_assigned'', RelatedTo ''User''),
     (''is_assigned'', RelatedTo ''User''),
     (''closed_by'', RelatedTo ''User''),
     (''is_merge_annotated'', RelatedFrom ''MergeRequest'' ''IS_RELATED''),
     (''has_note'', RelatedTo ''Note''),
     (''was_awarded_with'', RelatedTo ''AwardEmoji'')]"

definition MergeRequest_fields :: "(string \<times> field) list" where
  "MergeRequest_fields =
    [(''id'', Property ''id''),
     (''iid'', Property ''iid''),
     (''title'', Property ''title''),
     (''state'', Property ''state''),
     (''description'', Property ''description''),
     (''work_in_progress'', Property ''work_in_progress''),
     (''merge_when_pipeline_succeeds'', Property ''merge_when_pipeline_succeeds''),
     (''force_remove_source_branch'', Property ''force_remove_source_branch''),
     (''should_remove_source_branch'', Property ''should_remove_source_branch''),
     (''merge_status'', Property ''merge_status''),
     (''sha'', Property ''sha''),
     (''merge_commit_sha'', Property ''merge_commit_sha''),
     (''reference'', Property ''reference''),
     (''squash'', Property ''squash''),
     (''approvals_before_merge'', Property ''approvals_before_merge''),
     (''approvals_required'', Property ''approvals_required''),
     (''approvals_left'', Property ''approvals_left''),
     (''approved'', Property ''approved''),
     (''created_at'', Property ''created_at''),
     (''updated_at'', Property ''updated_at''),
     (''merged_at'', Property ''merged_at''),
     (''closed_at'', Property ''updated_at''),
     (''target_branch'', Property ''target_branch''),
     (''source_branch'', Property ''source_branch''),
     (''user_notes_count'', Property ''user_notes_count''),
     (''upvotes'', Property ''upvotes''),
     (''downvotes'', Property ''downvotes''),
     (''task_count'', Property ''task_count''),
     (''task_completed'', Property ''task_completed''),
     (''changes_count'', Property ''changes_count''),
     (''merge_error'', Property ''merge_error''),
     (''belongs_to'', RelatedTo ''Project''),
     (''has_label'', RelatedTo ''Label''),
     (''has_milestone'', RelatedTo ''Milestone''),
     (''created_by'', RelatedTo ''User''),
     (''is_assigned'', RelatedTo ''User''),
     (''was_assigned'', RelatedTo ''User''),
     (''closed_by'', RelatedTo ''User''),
     (''merged_by'', RelatedTo ''User''),
     (''is_related'', RelatedTo ''Issue''),
     (''has_merge_commit'', RelatedTo ''Commit''),
     (''is_latest_commit'', RelatedTo ''Commit''),
     (''has_note'', RelatedTo ''Note''),
     (''was_awarded_with'', RelatedTo ''AwardEmoji''),
     (''approved_by'', RelatedTo ''User''),
     (''has_change'', RelatedTo ''Change'')]"

definition Commit_fields :: "(string \<times> field) list" where
  "Commit_fields =
    [(''id'', Property ''id''),
     (''short_id'', Property ''short_id''),
     (''title'', Property ''title''),
     (''message'', Property ''message''),
     (''created_at'', Property ''created_at''),
     (''author_name'', Property ''author_name''),
     (''author_email'', Property ''author_email''),
     (''authored_date'', Property ''authored_date''),
     (''committer_name'', Property ''committer_name''),
     (''committer_email'', Property ''committer_email''),
     (''committed_date'', Property ''committed_date''),
     (''belongs_to'', RelatedTo ''Project''),
     (''is_author'', RelatedTo ''User''),
     (''is_committer'', RelatedTo ''User''),
     (''has_parent'', RelatedTo ''Commit''),
     (''is_parent'', RelatedFrom ''Commit'' ''HAS_PARENT''),
     (''is_merge_commit'', RelatedFrom ''MergeRequest'' ''HAS_MERGE_COMMIT''),
     (''is_latest_commit'', RelatedFrom ''MergeRequest'' ''IS_LATEST_COMMIT'')]"

definition AwardEmoji_fields :: "(string \<times> field) list" where
  "AwardEmoji_fields =
    [(''id'', Property ''id''),
     (''name'', Property ''name''),
     (''title'', Property ''title''),
     (''message'', Property ''message''),
     (''created_at'', Property ''created_at''),
     (''updated_at'', Property ''created_at''),
     (''was_awarded_by'', RelatedTo ''User''),
     (''was_awarded_to_note'', RelatedFrom ''Note'' ''WAS_AWARDED_WITH''),
     (''was_awarded_to_issue'', RelatedFrom ''Issue'' ''WAS_AWARDED_WITH''),
     (''was_awarded_to_merge'', RelatedFrom ''MergeRequest'' ''WAS_AWARDED_WITH'')]"

definition Change_fields :: "(string \<times> field) list" where
  "Change_fields =
    [(''id'', Property ''id''),
     (''old_path'', Property ''old_path''),
     (''new_path'', Property ''new_path''),
     (''a_mode'', Property ''a_mode''),
     (''b_mode'', Property ''b_mode''),
     (''new_file'', Property ''new_file''),
     (''renamed_file'', Property ''renamed_file''),
     (''deleted_file'', Property ''deleted_file''),
     (''diff'', Property ''diff''),
     (''changed_in_merge'', RelatedFrom ''MergeRequest'' ''HAS_CHANGE'')]"

fun class_fields :: "entity \<Rightarrow> (string \<times> field) list" where
  "class_fields Project = Project_fields"
| "class_fields User = User_fields"
| "class_fields Label = Label_fields"
| "class_fields Milestone = Milestone_fields"
| "class_fields Note = Note_fields"
| "class_fields Issue = Issue_fields"
| "class_fields MergeRequest = MergeRequest_fields"
| "class_fields Commit = Commit_fields"
| "class_fields AwardEmoji = AwardEmoji_fields"
| "class_fields Change = Change_fields"

text \<open>\<open>__primarykey__\<close> of each class.\<close>

fun primarykey :: "entity \<Rightarrow> string" where
  "primarykey Project = ''id''"
| "primarykey User = ''id''"
| "primarykey Label = ''id''"
| "primarykey Milestone = ''id''"
| "primarykey Note = ''id''"
| "primarykey Issue = ''id''"
| "primarykey MergeRequest = ''id''"
| "primarykey Commit = ''id''"
| "primarykey AwardEmoji = ''id''"
| "primarykey Change = ''id''"

section \<open>Graph repository (NeoGraphObject)\<close>

text \<open>
  The graph sink is an external service. It is modelled as the list of the nodes written
  so far; a node's identity is its position, and \<open>first()\<close> returns the earliest match.
  Failures of the sink itself (connection, constraint violations) are not modelled.
  A property holding \<open>None\<close> reads like a missing one (\<open>py_get\<close>), which is how the
  object mapper treats it.

  A graph object in memory carries its node's identity, its property bag and, per
  relationship attribute, the targets handed to \<open>update\<close>; a target is a node identity
  or \<open>None\<close>.
\<close>

record node =
  label :: entity
  nprops :: pydict

type_synonym graph = "node list"

record gobject =
  ident :: nat
  cls :: entity
  props :: pydict
  rels :: "(string \<times> nat option list) list"

fun first_match :: "(node \<Rightarrow> bool) \<Rightarrow> node list \<Rightarrow> nat \<Rightarrow> nat option" where
  "first_match P [] i = None"
| "first_match P (n # ns) i = (if P n then Some i else first_match P ns (Suc i))"

definition wrap :: "graph \<Rightarrow> nat \<Rightarrow> gobject" where
  "wrap g i = \<lparr>ident = i, cls = label (g ! i), props = nprops (g ! i), rels = []\<rparr>"

text \<open>
  The loop of \<open>create\<close>: \<open>hasattr(obj, attr) and not isinstance(getattr(obj, attr),
  RelatedObjects)\<close> holds for a declared \<open>Property\<close> and fails for a relationship and
  for an undeclared name; \<open>setattr\<close> on a \<open>Property\<close> writes the node property of its
  key. (A name of an inherited method also passes \<open>hasattr\<close>, but assigning it never
  touches the property bag, so for the node it counts as undeclared.)
\<close>

fun set_attributes :: "entity \<Rightarrow> pydict \<Rightarrow> pydict \<Rightarrow> pydict" where
  "set_attributes c [] ps = ps"
| "set_attributes c ((attr, v) # rest) ps =
     set_attributes c rest
       (case map_of (class_fields c) attr of
          Some (Property key) \<Rightarrow> dict_set ps key v
        | _ \<Rightarrow> ps)"

text \<open>\<open>get(cls, graph, filters)\<close>: the first node of the class that passes every filter.\<close>

definition passes :: "entity \<Rightarrow> pydict \<Rightarrow> node \<Rightarrow> bool" where
  "passes c filters n = (label n = c \<and> list_all (\<lambda>(a, v). py_get (nprops n) a = v) filters)"

text \<open>
  \<open>graph.create(obj)\<close> on a graph object is an upsert: the sink merges on the label
  of the class and the primary key of the object, and then sets all properties. A node
  of the class that already has the key is overwritten and keeps its identity;
  otherwise a node is added. Where several nodes carry the key, which the sink's own
  merges never produce, the earliest is taken.
\<close>

definition graph_create :: "graph \<Rightarrow> entity \<Rightarrow> pydict \<Rightarrow> graph \<times> nat" where
  "graph_create g c ps =
     (case first_match (passes c [(primarykey c, py_get ps (primarykey c))]) g 0 of
        None \<Rightarrow> (g @ [\<lparr>label = c, nprops = ps\<rparr>], length g)
      | Some i \<Rightarrow> (g[i := \<lparr>label = c, nprops = ps\<rparr>], i))"


fun create :: "entity \<Rightarrow> graph \<Rightarrow> pydict option \<Rightarrow> graph \<times> (exn + gobject)" where
  "create c g None = (g, Inl TypeError)"
| "create c g (Some attributes) =
     (if primarykey c \<notin> set (map fst attributes)
      then (g, Inl (NeoGraphObjectException (PrimaryNotInAttributes (primarykey c))))
      else let ps = set_attributes c attributes [];
               (g1, i) = graph_create g c ps
           in (g1, Inr \<lparr>ident = i, cls = c, props = ps, rels = []\<rparr>))"

definition get :: "entity \<Rightarrow> graph \<Rightarrow> pydict \<Rightarrow> gobject option" where
  "get c g filters = map_option (wrap g) (first_match (passes c filters) g 0)"

text \<open>\<open>get_or_create(cls, graph, pk=None, attributes=None)\<close>.\<close>

definition get_or_create ::
  "entity \<Rightarrow> graph \<Rightarrow> pyval \<Rightarrow> pydict option \<Rightarrow> graph \<times> (exn + gobject)" where
  "get_or_create c g pk attributes =
     (if pk = PNone then (g, Inl (NeoGraphObjectException PrimaryKeyMissing))
      else case get c g [(primarykey c, pk)] of
             Some obj \<Rightarrow> (g, Inr obj)
           | None \<Rightarrow>
               (case attributes of
                  Some attrs \<Rightarrow> create c g (Some (dict_merge [(primarykey c, pk)] attrs))
                | None \<Rightarrow> create c g (Some [(primarykey c, pk)])))"

text \<open>A class stores every property under the attribute's own name.\<close>

definition key_is_name :: "entity \<Rightarrow> bool" where
  "key_is_name c =
     list_all (\<lambda>(a, f). case f of Property k \<Rightarrow> k = a | _ \<Rightarrow> True) (class_fields c)"

section \<open>Pipelines (pipelines.py)\<close>

subsection \<open>Relationship sets and lookups\<close>

text \<open>
  \<open>model.rel.update(x)\<close> is a call into the object mapper. It is modelled as recording
  \<open>x\<close> among the targets of the relationship unless it is there already; the argument
  is not inspected, so \<open>None\<close> is recorded like a node. An edge of relationship \<open>r\<close>
  exists for each node among the targets (\<open>linked\<close>).
\<close>

definition targets :: "gobject \<Rightarrow> string \<Rightarrow> nat option list" where
  "targets obj r = (case map_of (rels obj) r of None \<Rightarrow> [] | Some ts \<Rightarrow> ts)"

definition rel_update :: "gobject \<Rightarrow> string \<Rightarrow> nat option \<Rightarrow> gobject" where
  "rel_update obj r t =
     (if t \<in> set (targets obj r) then obj
      else obj\<lparr>rels := dict_set (rels obj) r (targets obj r @ [t])\<rparr>)"

definition linked :: "gobject \<Rightarrow> string \<Rightarrow> nat list" where
  "linked obj r = map the (filter (\<lambda>t. t \<noteq> None) (targets obj r))"

text \<open>Assignment to a property of an object in memory.\<close>

definition set_prop :: "gobject \<Rightarrow> string \<Rightarrow> pyval \<Rightarrow> gobject" where
  "set_prop obj key v = obj\<lparr>props := dict_set (props obj) key v\<rparr>"

text \<open>\<open>cls.match(graph, pk).first()\<close>: the first node of the class with that primary key
  (any node of the class when \<open>pk\<close> is \<open>None\<close>).\<close>

definition match_first :: "entity \<Rightarrow> graph \<Rightarrow> pyval \<Rightarrow> nat option" where
  "match_first c g pk =
     map_option ident (if pk = PNone then get c g [] else get c g [(primarykey c, pk)])"

text \<open>Iterating a value with \<open>for x in v\<close>.\<close>

fun py_iter :: "pyval \<Rightarrow> exn + pyval list" where
  "py_iter (PList xs) = Inr xs"
| "py_iter (PDict d) = Inr (map (\<lambda>kv. PStr (fst kv)) d)"
| "py_iter (PStr s) = Inr (map (\<lambda>c. PStr [c]) s)"
| "py_iter _ = Inl TypeError"

definition bind_exn :: "exn + 'a \<Rightarrow> ('a \<Rightarrow> exn + 'b) \<Rightarrow> exn + 'b" where
  "bind_exn r f = (case r of Inl e \<Rightarrow> Inl e | Inr x \<Rightarrow> f x)"

subsection \<open>IssuePipeline.transform_data, one issue, up to the task counters\<close>

text \<open>
  The pattern \<open>x = d['id']; u = models.User.match(self.graph, x).first();
  model.r.update(u)\<close>: the result of the lookup goes to \<open>update\<close> unguarded.
\<close>

definition link_user :: "graph \<Rightarrow> pyval \<Rightarrow> string \<Rightarrow> gobject \<Rightarrow> exn + gobject" where
  "link_user g d r model =
     (case py_item d ''id'' of
        Inl e \<Rightarrow> Inl e
      | Inr i \<Rightarrow> Inr (rel_update model r (match_first User g i)))"

definition issue_author :: "graph \<Rightarrow> pydict \<Rightarrow> gobject \<Rightarrow> exn + gobject" where
  "issue_author g attributes issue_model =
     (let author_id = py_get attributes ''author''
      in if truthy author_id then link_user g author_id ''created_by'' issue_model
         else Inr issue_model)"

fun issue_assignees :: "graph \<Rightarrow> pyval list \<Rightarrow> gobject \<Rightarrow> exn + gobject" where
  "issue_assignees g [] issue_model = Inr issue_model"
| "issue_assignees g (assignee # rest) issue_model =
     (case link_user g assignee ''was_assigned'' issue_model of
        Inl e \<Rightarrow> Inl e
      | Inr m \<Rightarrow> issue_assignees g rest m)"

definition issue_assignee :: "graph \<Rightarrow> pydict \<Rightarrow> gobject \<Rightarrow> exn + gobject" where
  "issue_assignee g attributes issue_model =
     (let assignee = py_get attributes ''assignee''
      in if truthy assignee then link_user g assignee ''is_assigned'' issue_model
         else Inr issue_model)"

definition issue_closer :: "graph \<Rightarrow> pydict \<Rightarrow> gobject \<Rightarrow> exn + gobject" where
  "issue_closer g attributes issue_model =
     (let closer_id = py_get attributes ''closed_by''
      in if truthy closer_id then link_user g closer_id ''closed_by'' issue_model
         else Inr issue_model)"

text \<open>
  Labels are matched by the sink's regular-expression operator,
  \<open>_.name =~ '{label_name}'\<close>. The operator is a parameter \<open>rx\<close>: \<open>rx l v\<close> says
  whether a node whose \<open>name\<close> property is \<open>v\<close> matches the pattern made from \<open>l\<close>.
  \<open>if lbl_match:\<close> guards the update.
\<close>

definition label_match :: "(pyval \<Rightarrow> pyval \<Rightarrow> bool) \<Rightarrow> graph \<Rightarrow> pyval \<Rightarrow> nat option" where
  "label_match rx g label_name =
     first_match (\<lambda>n. label n = Label \<and> rx label_name (py_get (nprops n) ''name'')) g 0"

fun issue_labels ::
  "(pyval \<Rightarrow> pyval \<Rightarrow> bool) \<Rightarrow> graph \<Rightarrow> pyval list \<Rightarrow> gobject \<Rightarrow> gobject" where
  "issue_labels rx g [] issue_model = issue_model"
| "issue_labels rx g (label_name # rest) issue_model =
     issue_labels rx g rest
       (case label_match rx g label_name of
          None \<Rightarrow> issue_model
        | Some i \<Rightarrow> rel_update issue_model ''has_label'' (Some i))"

definition issue_milestone :: "graph \<Rightarrow> pydict \<Rightarrow> gobject \<Rightarrow> exn + gobject" where
  "issue_milestone g attributes issue_model =
     (let milestone_id = py_get attributes ''milestone''
      in if truthy milestone_id
         then (case py_item milestone_id ''id'' of
                 Inl e \<Rightarrow> Inl e
               | Inr i \<Rightarrow>
                   (case match_first Milestone g i of
                      None \<Rightarrow> Inr issue_model
                    | Some t \<Rightarrow> Inr (rel_update issue_model ''has_milestone'' (Some t))))
         else Inr issue_model)"

definition issue_tasks :: "pydict \<Rightarrow> gobject \<Rightarrow> exn + gobject" where
  "issue_tasks attributes issue_model =
     (if py_get attributes ''has_tasks'' = PBool True
      then (case py_get attributes ''task_completion_status'' of
              PDict task_status \<Rightarrow>
                Inr (set_prop
                       (set_prop issue_model ''task_count'' (py_get task_status ''task_count''))
                       ''task_completed'' (py_get task_status ''completed_count''))
            | _ \<Rightarrow> Inl AttributeError)
      else Inr issue_model)"

text \<open>
  The loop body for one issue, from \<open>models.Issue.create\<close> to the task counters. The
  rest of the body reads notes and award emojis from further resources of the API and
  is not part of the model.
\<close>

definition issue_relations ::
  "(pyval \<Rightarrow> pyval \<Rightarrow> bool) \<Rightarrow> graph \<Rightarrow> pydict \<Rightarrow> gobject \<Rightarrow> exn + gobject" where
  "issue_relations rx g attributes issue_model =
     bind_exn (issue_author g attributes issue_model) (\<lambda>m1.
     bind_exn (py_iter (py_get attributes ''assignees'')) (\<lambda>assignees.
     bind_exn (issue_assignees g assignees m1) (\<lambda>m2.
     bind_exn (issue_assignee g attributes m2) (\<lambda>m3.
     bind_exn (issue_closer g attributes m3) (\<lambda>m4.
     bind_exn (py_iter (py_get attributes ''labels'')) (\<lambda>labels.
     bind_exn (issue_milestone g attributes (issue_labels rx g labels m4)) (\<lambda>m5.
     issue_tasks attributes m5)))))))"

definition issue_transform ::
  "(pyval \<Rightarrow> pyval \<Rightarrow> bool) \<Rightarrow> graph \<Rightarrow> pydict \<Rightarrow> graph \<times> (exn + gobject)" where
  "issue_transform rx g attributes =
     (case create Issue g (Some attributes) of
        (g1, Inl e) \<Rightarrow> (g1, Inl e)
      | (g1, Inr issue_model) \<Rightarrow> (g1, issue_relations rx g1 attributes issue_model))"

subsection \<open>MergeRequestPipeline.transform_data: the issue named by the source branch\<close>

text \<open>
  A Python string is a sequence of code points; here it is the list of the bytes of
  its UTF-8 encoding, and \<open>code_points\<close> cuts the bytes into the code points again.
\<close>

definition utf8_len :: "char \<Rightarrow> nat" where
  "utf8_len c =
     (let n = (of_char c :: nat)
      in if 240 \<le> n then 4 else if 224 \<le> n then 3 else if 192 \<le> n then 2 else 1)"

function code_points :: "string \<Rightarrow> string list" where
  "code_points [] = []"
| "code_points (c # cs) =
     (c # take (utf8_len c - 1) cs) # code_points (drop (utf8_len c - 1) cs)"
  by pat_completeness auto
termination
  by (relation "measure length") auto

text \<open>
  \<open>\\d\<close> in a pattern on a \<open>str\<close>, and \<open>int()\<close>, accept every Unicode decimal digit.
  The ASCII digits are written out; the table of the other decimal digits belongs to
  the Python runtime and is the parameter \<open>dv\<close>, from the encoding of a code point to
  its digit value.
\<close>

definition digit_value :: "(string \<Rightarrow> int option) \<Rightarrow> string \<Rightarrow> int option" where
  "digit_value dv cp =
     (case cp of
        [] \<Rightarrow> None
      | [c] \<Rightarrow> (let n = (of_char c :: nat)
                in if 48 \<le> n \<and> n \<le> 57 then Some (int n - 48) else None)
      | _ \<Rightarrow> dv cp)"

definition is_digit :: "(string \<Rightarrow> int option) \<Rightarrow> string \<Rightarrow> bool" where
  "is_digit dv cp = (digit_value dv cp \<noteq> None)"

text \<open>
  \<open>re.match(r"^(\\d+)-.+$", s)\<close>, returning the code points of \<open>group(1)\<close>. \<open>\\d+\<close>
  takes the longest run of leading digits (a shorter run would have to be followed by
  a digit, not by \<open>-\<close>); \<open>.\<close> matches anything but a newline; \<open>$\<close> matches at the
  end of the string or before a newline that ends it.
\<close>

definition newline :: char where
  "newline = CHR 0x0A"

definition dot_plus_end :: "string list \<Rightarrow> bool" where
  "dot_plus_end cps =
     (let body = takeWhile (\<lambda>cp. cp \<noteq> [newline]) cps;
          tail = dropWhile (\<lambda>cp. cp \<noteq> [newline]) cps
      in body \<noteq> [] \<and> (tail = [] \<or> tail = [newline] # []))"

definition re_match_branch :: "(string \<Rightarrow> int option) \<Rightarrow> string \<Rightarrow> string list option" where
  "re_match_branch dv s =
     (let cps = code_points s;
          digits = takeWhile (is_digit dv) cps;
          rest = dropWhile (is_digit dv) cps
      in if digits = [] then None
         else (case rest of
                 [] \<Rightarrow> None
               | cp # body \<Rightarrow> if cp = ''-'' \<and> dot_plus_end body then Some digits else None))"

text \<open>\<open>int(s)\<close> on a string of decimal digits.\<close>

definition int_of_digits :: "(string \<Rightarrow> int option) \<Rightarrow> string list \<Rightarrow> int" where
  "int_of_digits dv ds =
     foldl (\<lambda>n cp. 10 * n + (case digit_value dv cp of Some v \<Rightarrow> v | None \<Rightarrow> 0)) 0 ds"

text \<open>
  The language of the pattern and the number its digits write, stated from the
  pattern and from positional notation: a nonempty run of decimal digits with the
  values \<open>vals\<close>, a hyphen, one or more code points other than a newline, and the end
  of the string or one final newline.
\<close>

definition ascii_digits :: "(string \<times> int) list" where
  "ascii_digits =
     [(''0'', 0), (''1'', 1), (''2'', 2), (''3'', 3), (''4'', 4),
      (''5'', 5), (''6'', 6), (''7'', 7), (''8'', 8), (''9'', 9)]"

definition digit_spec :: "(string \<Rightarrow> int option) \<Rightarrow> string \<Rightarrow> int option" where
  "digit_spec dv cp =
     (case map_of ascii_digits cp of
        Some v \<Rightarrow> Some v
      | None \<Rightarrow> if 1 < length cp then dv cp else None)"

definition decimal :: "int list \<Rightarrow> int" where
  "decimal vs = (\<Sum>i < length vs. vs ! i * 10 ^ (length vs - Suc i))"

definition branch_pattern :: "(string \<Rightarrow> int option) \<Rightarrow> string \<Rightarrow> int list \<Rightarrow> bool" where
  "branch_pattern dv s vals =
     (\<exists>ds body tail. code_points s = ds @ [''-''] @ body @ tail
        \<and> ds \<noteq> [] \<and> map (digit_spec dv) ds = map Some vals
        \<and> body \<noteq> [] \<and> [newline] \<notin> set body \<and> (tail = [] \<or> tail = [newline] # []))"

definition mr_related_issue ::
  "(string \<Rightarrow> int option) \<Rightarrow> graph \<Rightarrow> gobject \<Rightarrow> exn + gobject" where
  "mr_related_issue dv g merge_request_model =
     (case py_get (props merge_request_model) ''source_branch'' of
        PStr s \<Rightarrow>
          (case re_match_branch dv s of
             Some issue_iid \<Rightarrow>
               (if issue_iid \<noteq> []
                then (case get Issue g [(''iid'', PInt (int_of_digits dv issue_iid))] of
                        Some issue \<Rightarrow>
                          Inr (rel_update merge_request_model ''is_related'' (Some (ident issue)))
                      | None \<Rightarrow> Inr merge_request_model)
                else Inr merge_request_model)
           | None \<Rightarrow> Inr merge_request_model)
      | _ \<Rightarrow> Inl TypeError)"

text \<open>A digit table for the examples: the Arabic-Indic digits U+0660 to U+0669.\<close>

definition arabic_indic :: "string \<Rightarrow> int option" where
  "arabic_indic cp =
     (case cp of
        [a, b] \<Rightarrow> (let n = (of_char b :: nat)
                   in if a = CHR 0xD9 \<and> 160 \<le> n \<and> n \<le> 169 then Some (int n - 160) else None)
      | _ \<Rightarrow> None)"

subsection \<open>CommitPipeline\<close>

text \<open>\<open>str.split()\<close>: the maximal runs of non-whitespace characters.\<close>

definition is_space :: "char \<Rightarrow> bool" where
  "is_space c = (c \<in> set [CHR 0x09, CHR 0x0A, CHR 0x0B, CHR 0x0C, CHR 0x0D,
                          CHR 0x1C, CHR 0x1D, CHR 0x1E, CHR 0x1F, CHR 0x20])"

fun split_ws :: "string \<Rightarrow> string \<Rightarrow> string list" where
  "split_ws [] cur = (if cur = [] then [] else [cur])"
| "split_ws (c # cs) cur =
     (if is_space c then (if cur = [] then split_ws cs [] else cur # split_ws cs [])
      else split_ws cs (cur @ [c]))"

definition py_split :: "string \<Rightarrow> string list" where
  "py_split s = split_ws s []"

text \<open>The string \<open>hay\<close> contains \<open>needle\<close>.\<close>

fun contains :: "string \<Rightarrow> string \<Rightarrow> bool" where
  "contains [] needle = (needle = [])"
| "contains (h # t) needle = (prefix needle (h # t) \<or> contains t needle)"

text \<open>
  \<open>NeoGraphObject.find(cls, matcher, name__contains=s)\<close> is
  \<open>matcher.match(name__contains=s).first()\<close> with \<open>matcher = NodeMatcher(graph)\<close>:
  the class is not passed to the matcher, so nodes of every label are matched.
\<close>

definition neo_find :: "entity \<Rightarrow> graph \<Rightarrow> string \<Rightarrow> nat option" where
  "neo_find c g s =
     first_match (\<lambda>n. case py_get (nprops n) ''name'' of PStr nm \<Rightarrow> contains nm s | _ \<Rightarrow> False) g 0"

text \<open>\<open>_find_user\<close>, returning the list of the matcher queries it made and its result.\<close>

definition find_user :: "graph \<Rightarrow> string option \<Rightarrow> string list \<times> (exn + nat option)" where
  "find_user g name =
     (case name of
        None \<Rightarrow> ([], Inr None)
      | Some nm \<Rightarrow>
          (case neo_find User g nm of
             Some node \<Rightarrow> ([nm], Inr (Some node))
           | None \<Rightarrow>
               (case py_split nm of
                  [] \<Rightarrow> ([nm], Inl IndexError)
                | t # ts \<Rightarrow> ([nm, last (t # ts)], Inr (neo_find User g (last (t # ts)))))))"

text \<open>The API delivers a name as a string or as null; any other value is not a query
  the matcher accepts.\<close>

fun as_name :: "pyval \<Rightarrow> exn + string option" where
  "as_name PNone = Inr None"
| "as_name (PStr s) = Inr (Some s)"
| "as_name _ = Inl (External ''name__contains'')"

definition commit_link :: "graph \<Rightarrow> pydict \<Rightarrow> string \<Rightarrow> string \<Rightarrow> gobject \<Rightarrow> exn + gobject" where
  "commit_link g attributes key r commit_model =
     (case as_name (py_get attributes key) of
        Inl e \<Rightarrow> Inl e
      | Inr name \<Rightarrow>
          (case snd (find_user g name) of
             Inl e \<Rightarrow> Inl e
           | Inr None \<Rightarrow> Inr commit_model
           | Inr (Some user) \<Rightarrow> Inr (rel_update commit_model r (Some user))))"

fun commit_parents :: "graph \<Rightarrow> pyval list \<Rightarrow> gobject \<Rightarrow> graph \<times> (exn + gobject)" where
  "commit_parents g [] commit_model = (g, Inr commit_model)"
| "commit_parents g (parent_commit_id # rest) commit_model =
     (case get_or_create Commit g parent_commit_id None of
        (g1, Inl e) \<Rightarrow> (g1, Inl e)
      | (g1, Inr parent_commit) \<Rightarrow>
          commit_parents g1 rest
            (rel_update commit_model ''has_parent'' (Some (ident parent_commit))))"

definition commit_transform :: "graph \<Rightarrow> pydict \<Rightarrow> graph \<times> (exn + gobject)" where
  "commit_transform g attributes =
     (case create Commit g (Some attributes) of
        (g1, Inl e) \<Rightarrow> (g1, Inl e)
      | (g1, Inr commit_model) \<Rightarrow>
          (case commit_link g1 attributes ''author_name'' ''is_author'' commit_model of
             Inl e \<Rightarrow> (g1, Inl e)
           | Inr m1 \<Rightarrow>
               (case commit_link g1 attributes ''committer_name'' ''is_committer'' m1 of
                  Inl e \<Rightarrow> (g1, Inl e)
                | Inr m2 \<Rightarrow>
                    (case py_iter (py_get attributes ''parent_ids'') of
                       Inl e \<Rightarrow> (g1, Inl e)
                     | Inr parent_ids \<Rightarrow> commit_parents g1 parent_ids m2))))"

text \<open>\<open>CommitPipeline.transform_data\<close>: the loop over the requested commits, with the
  list \<open>commit_model_list\<close> as accumulator. An exception ends the loop.\<close>

fun commit_transform_data ::
  "graph \<Rightarrow> pydict list \<Rightarrow> gobject list \<Rightarrow> graph \<times> (exn + gobject list)" where
  "commit_transform_data g [] commit_model_list = (g, Inr commit_model_list)"
| "commit_transform_data g (commit # commits) commit_model_list =
     (case commit_transform g commit of
        (g1, Inl e) \<Rightarrow> (g1, Inl e)
      | (g1, Inr commit_model) \<Rightarrow>
          commit_transform_data g1 commits (commit_model_list @ [commit_model]))"

section \<open>Configuration and orchestration (helpers.py, gitlab2graph.py)\<close>

text \<open>
  A parsed configuration file: the options of the \<open>DEFAULT\<close> section, which every
  section inherits, and the named sections in file order.
\<close>

record ini =
  defaults :: "(string \<times> string) list"
  sections :: "(string \<times> (string \<times> string) list) list"

definition VALID_CONFIG :: "(string \<times> string list) list" where
  "VALID_CONFIG =
     [(''GITLAB'', [''token'']),
      (''NEO4J'', [''hostname'', ''protocol'', ''port'', ''db'', ''user'', ''password'']),
      (''PROJECT'', [''project_id''])]"

text \<open>\<open>param in config[section]\<close>, for a section that exists.\<close>

definition has_option :: "ini \<Rightarrow> string \<Rightarrow> string \<Rightarrow> bool" where
  "has_option config section param =
     (case map_of (sections config) section of
        None \<Rightarrow> False
      | Some opts \<Rightarrow> param \<in> fst ` set opts \<or> param \<in> fst ` set (defaults config))"

fun check_params :: "ini \<Rightarrow> string \<Rightarrow> string list \<Rightarrow> exn option" where
  "check_params config section [] = None"
| "check_params config section (param # rest) =
     (if \<not> has_option config section param
      then Some (ConfigurationException (ParameterMissing param section))
      else check_params config section rest)"

fun check_sections :: "ini \<Rightarrow> (string \<times> string list) list \<Rightarrow> exn option" where
  "check_sections config [] = None"
| "check_sections config ((section, params) # rest) =
     (if section \<notin> fst ` set (sections config)
      then Some (ConfigurationException (SectionMissing section))
      else (case check_params config section params of
              Some e \<Rightarrow> Some e
            | None \<Rightarrow> check_sections config rest))"

text \<open>
  \<open>get_config(configfile)\<close>. The file system is the function \<open>files\<close>, from a file
  name to the parsed content of the file, or \<open>None\<close> where no such file exists.
\<close>

definition get_config :: "(string \<Rightarrow> ini option) \<Rightarrow> string \<Rightarrow> exn + ini" where
  "get_config files configfile =
     (case files configfile of
        None \<Rightarrow> Inl (ConfigurationException (NotFound configfile))
      | Some config \<Rightarrow>
          (case check_sections config VALID_CONFIG of
             Some e \<Rightarrow> Inl e
           | None \<Rightarrow> Inr config))"

definition PIPELINES :: "string list" where
  "PIPELINES =
     [''UserPipeline'', ''LabelPipeline'', ''MilestonePipeline'',
      ''IssuePipeline'', ''MergeRequestPipeline'', ''CommitPipeline'']"

text \<open>
  The pipelines act on the source API and on the graph sink. For the order of the
  calls, the world they act on is a type parameter \<open>'w\<close>, and the constructors and the
  three methods of the pipeline classes are parameters: each takes the world and
  returns the world it leaves, and the exception if it raises. The model also keeps a
  list of the method calls made; a call is recorded when it is made, whether it returns
  or raises.
\<close>

datatype phase = RequestData | TransformData | CommitData

type_synonym call = "string \<times> phase"

record 'w impl =
  construct :: "string \<Rightarrow> ini \<Rightarrow> 'w \<Rightarrow> 'w \<times> exn option"
  invoke :: "string \<Rightarrow> phase \<Rightarrow> 'w \<Rightarrow> 'w \<times> exn option"

text \<open>\<open>get_pipelines(config)\<close>: one instance per name of \<open>PIPELINES\<close>, built in order.\<close>

fun construct_all ::
  "'w impl \<Rightarrow> ini \<Rightarrow> string list \<Rightarrow> 'w \<Rightarrow> 'w \<times> (exn + string list)" where
  "construct_all I cfg [] w = (w, Inr [])"
| "construct_all I cfg (pipe # rest) w =
     (case construct I pipe cfg w of
        (w1, Some e) \<Rightarrow> (w1, Inl e)
      | (w1, None) \<Rightarrow>
          (case construct_all I cfg rest w1 of
             (w2, Inl e) \<Rightarrow> (w2, Inl e)
           | (w2, Inr pipes) \<Rightarrow> (w2, Inr (pipe # pipes))))"

definition get_pipelines :: "'w impl \<Rightarrow> ini \<Rightarrow> 'w \<Rightarrow> 'w \<times> (exn + string list)" where
  "get_pipelines I cfg w = construct_all I cfg PIPELINES w"

text \<open>The first loop of \<open>process_pipelines\<close>.\<close>

fun request_all ::
  "'w impl \<Rightarrow> string list \<Rightarrow> 'w \<Rightarrow> call list \<Rightarrow> call list \<times> 'w \<times> exn option" where
  "request_all I [] w log = (log, w, None)"
| "request_all I (pipe # pipes) w log =
     (case invoke I pipe RequestData w of
        (w1, Some e) \<Rightarrow> (log @ [(pipe, RequestData)], w1, Some e)
      | (w1, None) \<Rightarrow> request_all I pipes w1 (log @ [(pipe, RequestData)]))"

text \<open>The second loop of \<open>process_pipelines\<close>.\<close>

fun transform_commit_all ::
  "'w impl \<Rightarrow> string list \<Rightarrow> 'w \<Rightarrow> call list \<Rightarrow> call list \<times> 'w \<times> exn option" where
  "transform_commit_all I [] w log = (log, w, None)"
| "transform_commit_all I (pipe # pipes) w log =
     (case invoke I pipe TransformData w of
        (w1, Some e) \<Rightarrow> (log @ [(pipe, TransformData)], w1, Some e)
      | (w1, None) \<Rightarrow>
          (case invoke I pipe CommitData w1 of
             (w2, Some e) \<Rightarrow> (log @ [(pipe, TransformData), (pipe, CommitData)], w2, Some e)
           | (w2, None) \<Rightarrow>
               transform_commit_all I pipes w2
                 (log @ [(pipe, TransformData), (pipe, CommitData)])))"

definition process_pipelines ::
  "'w impl \<Rightarrow> ini \<Rightarrow> 'w \<Rightarrow> call list \<times> 'w \<times> exn option" where
  "process_pipelines I cfg w =
     (case get_pipelines I cfg w of
        (w0, Inl e) \<Rightarrow> ([], w0, Some e)
      | (w0, Inr pipes) \<Rightarrow>
          (case request_all I pipes w0 [] of
             (log, w1, Some e) \<Rightarrow> (log, w1, Some e)
           | (log, w1, None) \<Rightarrow> transform_commit_all I pipes w1 log))"

text \<open>
  The loop of the command line over its configuration files. Each recorded call
  carries the name of the configuration file it was made for. Nothing catches an
  exception: it ends the loop.
\<close>

fun main_loop ::
  "'w impl \<Rightarrow> (string \<Rightarrow> ini option) \<Rightarrow> string list \<Rightarrow> 'w \<Rightarrow> (string \<times> call) list
     \<Rightarrow> (string \<times> call) list \<times> 'w \<times> exn option" where
  "main_loop I files [] w log = (log, w, None)"
| "main_loop I files (config_filename # rest) w log =
     (case get_config files config_filename of
        Inl e \<Rightarrow> (log, w, Some e)
      | Inr cfg \<Rightarrow>
          (case process_pipelines I cfg w of
             (calls, w1, Some e) \<Rightarrow> (log @ map (Pair config_filename) calls, w1, Some e)
           | (calls, w1, None) \<Rightarrow>
               main_loop I files rest w1 (log @ map (Pair config_filename) calls)))"

definition main :: "'w impl \<Rightarrow> (string \<Rightarrow> ini option) \<Rightarrow> string list \<Rightarrow> 'w
     \<Rightarrow> (string \<times> call) list \<times> 'w \<times> exn option" where
  "main I files configuration w = main_loop I files configuration w []"

text \<open>
  What the claims say of the order, as a function of its own: making a given list of
  method calls one after the other, up to the first that raises.
\<close>

fun run_calls ::
  "'w impl \<Rightarrow> call list \<Rightarrow> 'w \<Rightarrow> call list \<Rightarrow> call list \<times> 'w \<times> exn option" where
  "run_calls I [] w log = (log, w, None)"
| "run_calls I ((pipe, ph) # calls) w log =
     (case invoke I pipe ph w of
        (w1, Some e) \<Rightarrow> (log @ [(pipe, ph)], w1, Some e)
      | (w1, None) \<Rightarrow> run_calls I calls w1 (log @ [(pipe, ph)]))"

definition request_calls :: "string list \<Rightarrow> call list" where
  "request_calls pipes = map (\<lambda>p. (p, RequestData)) pipes"

definition transform_commit_calls :: "string list \<Rightarrow> call list" where
  "transform_commit_calls pipes = concat (map (\<lambda>p. [(p, TransformData), (p, CommitData)]) pipes)"

text \<open>
  Two environments: one in which nothing raises and the world is trivial, and one in
  which nothing raises and the world is the list of what the constructors and methods
  were asked to do, written by themselves. And a configuration with every required
  section and option.
\<close>

definition no_failure :: "unit impl" where
  "no_failure = \<lparr>construct = (\<lambda>pipe cfg w. (w, None)), invoke = (\<lambda>pipe ph w. (w, None))\<rparr>"

datatype event = Built string | Called string phase

definition recorder :: "event list impl" where
  "recorder = \<lparr>construct = (\<lambda>pipe cfg w. (w @ [Built pipe], None)),
                invoke = (\<lambda>pipe ph w. (w @ [Called pipe ph], None))\<rparr>"

definition sample_config :: ini where
  "sample_config =
     \<lparr>defaults = [],
      sections =
        [(''GITLAB'', [(''token'', ''f00b4r'')]),
         (''NEO4J'', [(''hostname'', ''localhost''), (''protocol'', ''bolt''),
                     (''port'', ''7687''), (''db'', ''data''),
                     (''user'', ''neo4j''), (''password'', ''secret'')]),
         (''PROJECT'', [(''project_id'', ''42'')])]\<rparr>"

definition only_good_ini :: "string \<Rightarrow> ini option" where
  "only_good_ini name = (if name = ''good.ini'' then Some sample_config else None)"

section \<open>Properties of the graph repository\<close>

lemmas fields_defs = Project_fields_def User_fields_def Label_fields_def Milestone_fields_def
  Note_fields_def Issue_fields_def MergeRequest_fields_def Commit_fields_def
  AwardEmoji_fields_def Change_fields_def

lemma map_of_dict_set: "map_of (dict_set d k v) = (map_of d)(k \<mapsto> v)"
  by (induction d) (auto simp: fun_eq_iff)





text \<open>Every class declares its primary key as a property stored under the same name,
  and no other attribute of the class is stored under that name.\<close>

lemma pk_field: "map_of (class_fields c) (primarykey c) = Some (Property (primarykey c))"
  by (cases c) (simp_all add: fields_defs)


text \<open>What the loop of \<open>create\<close> leaves under a node property \<open>p\<close> that exactly one
  attribute \<open>a\<close> is stored under, and under one that no attribute of the dictionary
  is stored under.\<close>

lemma set_attributes_lookup:
  assumes "distinct (map fst attrs)"
    and "\<And>a'. map_of (class_fields c) a' = Some (Property p) \<Longrightarrow> a' = a"
    and "map_of (class_fields c) a = Some (Property p)"
  shows "map_of (set_attributes c attrs ps) p =
           (case map_of attrs a of Some v \<Rightarrow> Some v | None \<Rightarrow> map_of ps p)"
  using assms(1)
proof (induction attrs arbitrary: ps)
  case Nil
  then show ?case by simp
next
  case (Cons x rest)
  obtain a0 v0 where x: "x = (a0, v0)" by (cases x)
  from Cons.prems x have d: "distinct (map fst rest)" and nin: "a0 \<notin> fst ` set rest" by auto
  let ?ps = "case map_of (class_fields c) a0 of
               Some (Property key) \<Rightarrow> dict_set ps key v0 | _ \<Rightarrow> ps"
  have ih: "map_of (set_attributes c rest ?ps) p =
           (case map_of rest a of Some v \<Rightarrow> Some v | None \<Rightarrow> map_of ?ps p)"
    by (rule Cons.IH [OF d])
  show ?case
  proof (cases "a0 = a")
    case True
    then have "map_of rest a = None" using nin by (simp add: map_of_eq_None_iff)
    moreover have "map_of ?ps p = Some v0" using True assms(3) by (simp add: map_of_dict_set)
    ultimately show ?thesis using ih x True by (simp split: option.splits)
  next
    case False
    have "map_of ?ps p = map_of ps p"
      using False assms(2) [of a0]
      by (auto simp: map_of_dict_set split: option.splits field.splits)
    then show ?thesis using ih x False by (simp split: option.splits)
  qed
qed

lemma set_attributes_other:
  "(\<And>a. a \<in> fst ` set attrs \<Longrightarrow> map_of (class_fields c) a \<noteq> Some (Property p))
     \<Longrightarrow> map_of (set_attributes c attrs ps) p = map_of ps p"
proof (induction attrs arbitrary: ps)
  case Nil
  then show ?case by simp
next
  case (Cons x rest)
  obtain a0 v0 where x: "x = (a0, v0)" by (cases x)
  let ?ps = "case map_of (class_fields c) a0 of
               Some (Property key) \<Rightarrow> dict_set ps key v0 | _ \<Rightarrow> ps"
  have "map_of (class_fields c) a0 \<noteq> Some (Property p)" using Cons.prems [of a0] x by simp
  then have "map_of ?ps p = map_of ps p"
    by (auto simp: map_of_dict_set split: option.splits field.splits)
  moreover have "map_of (set_attributes c rest ?ps) p = map_of ?ps p"
    using Cons.prems by (intro Cons.IH) auto
  ultimately show ?case using x by simp
qed

lemma first_match_append:
  "first_match P (xs @ ys) i =
     (case first_match P xs i of Some j \<Rightarrow> Some j | None \<Rightarrow> first_match P ys (i + length xs))"
  by (induction xs arbitrary: i) (auto split: option.splits)

lemma first_match_bound:
  "first_match P xs i = Some j \<Longrightarrow> i \<le> j \<and> j < i + length xs \<and> P (xs ! (j - i))"
proof (induction xs arbitrary: i)
  case Nil
  then show ?case by simp
next
  case (Cons x xs)
  show ?case
  proof (cases "P x")
    case True
    with Cons.prems show ?thesis by auto
  next
    case False
    with Cons.prems have "first_match P xs (Suc i) = Some j" by simp
    from Cons.IH [OF this] show ?thesis by (auto simp: Suc_diff_le nth_Cons')
  qed
qed

lemma first_match_None: "first_match P xs i = None \<longleftrightarrow> (\<forall>n \<in> set xs. \<not> P n)"
  by (induction xs arbitrary: i) auto

text \<open>The upsert of \<open>graph.create\<close>: the written node is in the new graph under the
  returned identity; it replaces the node \<open>get\<close> finds under the key, or is added.\<close>

lemma first_match_lt: "first_match P xs 0 = Some j \<Longrightarrow> j < length xs \<and> P (xs ! j)"
  using first_match_bound [of P xs 0 j] by simp

lemma first_match_least:
  "first_match P xs i = Some j \<Longrightarrow> k < j - i \<Longrightarrow> \<not> P (xs ! k)"
proof (induction xs arbitrary: i k)
  case Nil
  then show ?case by simp
next
  case (Cons x xs)
  show ?case
  proof (cases "P x")
    case True
    with Cons.prems show ?thesis by simp
  next
    case False
    with Cons.prems have fm: "first_match P xs (Suc i) = Some j" by simp
    show ?thesis
    proof (cases k)
      case 0
      then show ?thesis using False by simp
    next
      case (Suc k')
      from first_match_bound [OF fm] have "Suc i \<le> j" by simp
      then have "k' < j - Suc i" using Cons.prems(2) Suc by simp
      from Cons.IH [OF fm this] show ?thesis using Suc by simp
    qed
  qed
qed

lemma first_match_update:
  assumes "first_match P g 0 = Some i" and "P n"
  shows "first_match P (g[i := n]) 0 = Some i"
proof -
  from first_match_lt [OF assms(1)] have i: "i < length g" by simp
  have g: "g[i := n] = take i g @ n # drop (Suc i) g" using i by (rule upd_conv_take_nth_drop)
  have "\<forall>x \<in> set (take i g). \<not> P x"
  proof
    fix x assume "x \<in> set (take i g)"
    then obtain k where k: "k < i" "x = g ! k"
      using i by (auto simp: in_set_conv_nth)
    from first_match_least [OF assms(1), of k] k show "\<not> P x" by simp
  qed
  then have "first_match P (take i g) 0 = None" by (simp add: first_match_None)
  then show ?thesis using assms(2) i by (simp add: g first_match_append)
qed



text \<open>
  C1. For every entity type and every primary-key value \<open>k\<close> other than \<open>None\<close>,
  \<open>get_or_create(type, k)\<close> succeeds and returns an object that is a node of the graph
  it leaves: a node of the class with key \<open>k\<close>, at the returned identity. The graph is
  the old one, or the old one with the single node \<open>{key: k}\<close> added when no node had
  the key; the number of nodes of the class with key \<open>k\<close> is one, or what it was. On
  the graph left, \<open>get\<close> under \<open>k\<close> finds this very object, and a second
  \<open>get_or_create\<close> returns it and leaves the graph as it is.
\<close>

theorem get_or_create_idempotent:
  assumes "k \<noteq> PNone"
  shows "\<exists>g' obj. get_or_create c g k None = (g', Inr obj)
           \<and> ident obj < length g' \<and> cls obj = c
           \<and> label (g' ! ident obj) = c \<and> nprops (g' ! ident obj) = props obj
           \<and> py_get (props obj) (primarykey c) = k
           \<and> (g' = g \<or> (get c g [(primarykey c, k)] = None
                          \<and> g' = g @ [\<lparr>label = c, nprops = [(primarykey c, k)]\<rparr>]))
           \<and> length (filter (passes c [(primarykey c, k)]) g')
                = max 1 (length (filter (passes c [(primarykey c, k)]) g))
           \<and> get c g' [(primarykey c, k)] = Some obj
           \<and> get_or_create c g' k None = (g', Inr obj)"
proof (cases "first_match (passes c [(primarykey c, k)]) g 0")
  case None
  let ?P = "passes c [(primarykey c, k)]"
  let ?n = "\<lparr>label = c, nprops = [(primarykey c, k)]\<rparr>"
  let ?o = "\<lparr>ident = length g, cls = c, props = [(primarykey c, k)], rels = []\<rparr>"
  have gn: "get c g [(primarykey c, k)] = None" using None by (simp add: get_def)
  have c1: "get_or_create c g k None = (g @ [?n], Inr ?o)"
    using None assms
    by (simp add: get_or_create_def get_def pk_field Let_def graph_create_def py_get_def)
  have p: "?P ?n" by (simp add: passes_def py_get_def)
  have fm: "first_match ?P (g @ [?n]) 0 = Some (length g)"
    using None p by (simp add: first_match_append)
  then have g2: "get c (g @ [?n]) [(primarykey c, k)] = Some ?o"
    by (simp add: get_def wrap_def)
  then have c2: "get_or_create c (g @ [?n]) k None = (g @ [?n], Inr ?o)"
    using assms by (simp add: get_or_create_def)
  have "filter ?P g = []" using None by (simp add: first_match_None filter_empty_conv)
  then have cnt: "length (filter ?P (g @ [?n])) = max 1 (length (filter ?P g))"
    using p by simp
  show ?thesis
    using c1 c2 g2 gn cnt by (simp add: py_get_def)
next
  case (Some i)
  let ?P = "passes c [(primarykey c, k)]"
  from first_match_lt [OF Some] have i: "i < length g" "?P (g ! i)" by simp_all
  have g1: "get c g [(primarykey c, k)] = Some (wrap g i)" using Some by (simp add: get_def)
  then have c1: "get_or_create c g k None = (g, Inr (wrap g i))"
    using assms by (simp add: get_or_create_def)
  have "filter ?P g \<noteq> []"
    using i nth_mem [of i g] by (auto simp: filter_empty_conv)
  then have "1 \<le> length (filter ?P g)" by (cases "filter ?P g") simp_all
  then have cnt: "length (filter ?P g) = max 1 (length (filter ?P g))" by simp
  show ?thesis
    using c1 g1 i cnt by (simp add: wrap_def passes_def)
qed

theorem get_or_create_idempotent_witness:
  "PStr ''4f2a'' \<noteq> PNone
   \<and> get_or_create Commit [] (PStr ''4f2a'') None
       = ([\<lparr>label = Commit, nprops = [(''id'', PStr ''4f2a'')]\<rparr>],
          Inr \<lparr>ident = 0, cls = Commit, props = [(''id'', PStr ''4f2a'')], rels = []\<rparr>)
   \<and> get Commit [\<lparr>label = Commit, nprops = [(''id'', PStr ''4f2a'')]\<rparr>] [(''id'', PStr ''4f2a'')]
       = Some \<lparr>ident = 0, cls = Commit, props = [(''id'', PStr ''4f2a'')], rels = []\<rparr>
   \<and> get_or_create Commit [\<lparr>label = Commit, nprops = [(''id'', PStr ''4f2a'')]\<rparr>]
         (PStr ''4f2a'') None
       = ([\<lparr>label = Commit, nprops = [(''id'', PStr ''4f2a'')]\<rparr>],
          Inr \<lparr>ident = 0, cls = Commit, props = [(''id'', PStr ''4f2a'')], rels = []\<rparr>)"
proof -
  have 1: "get_or_create Commit [] (PStr ''4f2a'') None
       = ([\<lparr>label = Commit, nprops = [(''id'', PStr ''4f2a'')]\<rparr>],
          Inr \<lparr>ident = 0, cls = Commit, props = [(''id'', PStr ''4f2a'')], rels = []\<rparr>)"
    by (simp add: get_or_create_def get_def graph_create_def py_get_def Commit_fields_def Let_def)
  have 2: "get Commit [\<lparr>label = Commit, nprops = [(''id'', PStr ''4f2a'')]\<rparr>] [(''id'', PStr ''4f2a'')]
       = Some \<lparr>ident = 0, cls = Commit, props = [(''id'', PStr ''4f2a'')], rels = []\<rparr>"
    by (simp add: get_def passes_def py_get_def wrap_def)
  have 3: "get_or_create Commit [\<lparr>label = Commit, nprops = [(''id'', PStr ''4f2a'')]\<rparr>]
         (PStr ''4f2a'') None
       = ([\<lparr>label = Commit, nprops = [(''id'', PStr ''4f2a'')]\<rparr>],
          Inr \<lparr>ident = 0, cls = Commit, props = [(''id'', PStr ''4f2a'')], rels = []\<rparr>)"
    using 2 by (simp add: get_or_create_def)
  have 0: "PStr ''4f2a'' \<noteq> PNone" by simp
  show ?thesis
    using get_or_create_idempotent [OF 0, of Commit "[]"] 0 1 2 3 by blast
qed





text \<open>
  C8. \<open>create\<close> is claimed to copy exactly the dictionary entries that name a declared
  property. The class \<open>Issue\<close> declares \<open>closed_at = Property("updated_at")\<close>: on an
  issue record with both entries, the value of \<open>closed_at\<close> is written over the node's
  \<open>updated_at\<close>, and the node has no \<open>closed_at\<close> property of its own.
\<close>

theorem create_issue_closed_at_overwrites_updated_at:
  "create Issue []
     (Some [(''id'', PInt 1), (''updated_at'', PStr ''2020-01-02''),
            (''closed_at'', PStr ''2020-03-04'')]) =
   ([\<lparr>label = Issue, nprops = [(''id'', PInt 1), (''updated_at'', PStr ''2020-03-04'')]\<rparr>],
    Inr \<lparr>ident = 0, cls = Issue,
         props = [(''id'', PInt 1), (''updated_at'', PStr ''2020-03-04'')], rels = []\<rparr>)"
  by (simp add: Issue_fields_def Let_def graph_create_def)

text \<open>
  The classes whose every property is stored under its own name are all but \<open>Issue\<close>,
  \<open>MergeRequest\<close> and \<open>AwardEmoji\<close>; for those classes \<open>create\<close> does copy exactly the
  entries that name a declared property.
\<close>

lemma key_is_name_classes:
  "key_is_name c = (c \<notin> {Issue, MergeRequest, AwardEmoji})"
  by (cases c) (simp_all add: key_is_name_def fields_defs)

lemma key_is_nameD:
  "key_is_name c \<Longrightarrow> map_of (class_fields c) a = Some (Property k) \<Longrightarrow> k = a"
  by (auto simp: key_is_name_def list_all_iff dest!: map_of_SomeD)

lemma create_copies_declared_properties:
  assumes "key_is_name c" and "distinct (map fst attrs)"
    and "create c g (Some attrs) = (g', Inr obj)"
  shows "map_of (props obj) p =
           (if map_of (class_fields c) p = Some (Property p) then map_of attrs p else None)"
proof -
  have obj: "props obj = set_attributes c attrs []"
    using assms(3) by (auto simp: Let_def split: if_splits prod.splits)
  show ?thesis
  proof (cases "map_of (class_fields c) p = Some (Property p)")
    case True
    have "\<And>a'. map_of (class_fields c) a' = Some (Property p) \<Longrightarrow> a' = p"
      using key_is_nameD [OF assms(1)] by blast
    from set_attributes_lookup [OF assms(2) this True, of "[]"] True obj
    show ?thesis by (simp split: option.splits)
  next
    case False
    have "\<And>a. a \<in> fst ` set attrs \<Longrightarrow> map_of (class_fields c) a \<noteq> Some (Property p)"
      using key_is_nameD [OF assms(1)] False by blast
    from set_attributes_other [of attrs c p "[]", OF this] False obj show ?thesis by simp
  qed
qed

section \<open>Properties of the commit pipeline\<close>

lemma split_ws_all_space: "\<forall>c \<in> set s. is_space c \<Longrightarrow> split_ws s [] = []"
  by (induction s) auto

text \<open>The class \<open>Commit\<close> stores nothing under \<open>name\<close>, so a commit node is never a
  match of a query on \<open>name\<close>.\<close>

lemma commit_has_no_name:
  "py_get (set_attributes Commit attrs []) ''name'' = PNone"
proof -
  have "\<And>a. map_of (class_fields Commit) a \<noteq> Some (Property ''name'')"
    by (simp add: Commit_fields_def)
  then have "map_of (set_attributes Commit attrs []) ''name'' = map_of [] ''name''"
    by (intro set_attributes_other) simp
  then show ?thesis by (simp add: py_get_def)
qed

lemma neo_find_after_commit:
  assumes "neo_find c g s = None" and "create Commit g (Some attrs) = (g1, Inr m)"
  shows "neo_find c g1 s = None"
proof -
  let ?P = "\<lambda>n. case py_get (nprops n) ''name'' of PStr nm \<Rightarrow> contains nm s | _ \<Rightarrow> False"
  let ?n = "\<lparr>label = Commit, nprops = set_attributes Commit attrs []\<rparr>"
  have old: "\<forall>n \<in> set g. \<not> ?P n" using assms(1) by (simp add: neo_find_def first_match_None)
  have new: "\<not> ?P ?n" by (simp add: commit_has_no_name)
  have "g1 = g @ [?n] \<or> (\<exists>i. g1 = g[i := ?n])"
    using assms(2)
    by (auto simp: Let_def graph_create_def split: if_splits option.splits)
  then have "set g1 \<subseteq> insert ?n (set g)"
    using set_update_subset_insert [of g _ ?n] by auto
  then have "\<forall>n \<in> set g1. \<not> ?P n" using old new by blast
  then show ?thesis by (simp add: neo_find_def first_match_None)
qed

text \<open>
  C10. \<open>_find_user(None)\<close> returns \<open>None\<close> and makes no query. For a name made of
  whitespace only that no node name contains, the fallback \<open>name.split()[-1]\<close> raises
  \<open>IndexError\<close> after the one query, and \<open>transform_data\<close> raises \<open>IndexError\<close> on a
  list of commits that starts with a commit of such an author name.
\<close>

theorem find_user_not_total:
  "find_user g None = ([], Inr None)
   \<and> ((\<forall>ch \<in> set nm. is_space ch) \<and> neo_find User g nm = None \<longrightarrow>
        find_user g (Some nm) = ([nm], Inl IndexError))
   \<and> ((\<forall>ch \<in> set nm. is_space ch) \<and> neo_find User g nm = None
        \<and> ''id'' \<in> fst ` set commit \<and> py_get commit ''author_name'' = PStr nm \<longrightarrow>
        snd (commit_transform_data g (commit # commits) acc) = Inl IndexError)"
proof (intro conjI impI)
  show "find_user g None = ([], Inr None)" by (simp add: find_user_def)
next
  assume "(\<forall>ch \<in> set nm. is_space ch) \<and> neo_find User g nm = None"
  then show "find_user g (Some nm) = ([nm], Inl IndexError)"
    by (simp add: find_user_def py_split_def split_ws_all_space)
next
  assume a: "(\<forall>ch \<in> set nm. is_space ch) \<and> neo_find User g nm = None
        \<and> ''id'' \<in> fst ` set commit \<and> py_get commit ''author_name'' = PStr nm"
  obtain g1 i where gc: "graph_create g Commit (set_attributes Commit commit []) = (g1, i)"
    by (cases "graph_create g Commit (set_attributes Commit commit [])")
  let ?m = "\<lparr>ident = i, cls = Commit, props = set_attributes Commit commit [], rels = []\<rparr>"
  have cr: "create Commit g (Some commit) = (g1, Inr ?m)"
    using a gc by (simp add: Let_def)
  have "neo_find User g1 nm = None"
    using a neo_find_after_commit [OF _ cr] by simp
  then have "find_user g1 (Some nm) = ([nm], Inl IndexError)"
    using a by (simp add: find_user_def py_split_def split_ws_all_space)
  then have "commit_link g1 commit ''author_name'' ''is_author'' ?m = Inl IndexError"
    using a by (simp add: commit_link_def)
  then have "snd (commit_transform g commit) = Inl IndexError"
    unfolding commit_transform_def cr by simp
  then show "snd (commit_transform_data g (commit # commits) acc) = Inl IndexError"
    by (cases "commit_transform g commit") (auto split: sum.splits)
qed

theorem find_user_not_total_witness:
  "list_all is_space ''  ''
   \<and> neo_find User [\<lparr>label = User, nprops = [(''id'', PInt 7), (''name'', PStr ''Jane Doe'')]\<rparr>] ''  '' = None
   \<and> ''id'' \<in> fst ` set [(''id'', PStr ''4f2a''), (''author_name'', PStr ''  '')]
   \<and> py_get [(''id'', PStr ''4f2a''), (''author_name'', PStr ''  '')] ''author_name'' = PStr ''  ''
   \<and> find_user [\<lparr>label = User, nprops = [(''id'', PInt 7), (''name'', PStr ''Jane Doe'')]\<rparr>] None
       = ([], Inr None)
   \<and> find_user [\<lparr>label = User, nprops = [(''id'', PInt 7), (''name'', PStr ''Jane Doe'')]\<rparr>]
        (Some ''  '') = ([''  ''], Inl IndexError)
   \<and> snd (commit_transform_data
            [\<lparr>label = User, nprops = [(''id'', PInt 7), (''name'', PStr ''Jane Doe'')]\<rparr>]
            ([(''id'', PStr ''4f2a''), (''author_name'', PStr ''  '')] # []) []) = Inl IndexError"
  using find_user_not_total
    [where g = "[\<lparr>label = User, nprops = [(''id'', PInt 7), (''name'', PStr ''Jane Doe'')]\<rparr>]"
       and nm = "''  ''" and commit = "[(''id'', PStr ''4f2a''), (''author_name'', PStr ''  '')]"
       and commits = "[]" and acc = "[]"]
  by (simp add: is_space_def neo_find_def py_get_def)

text \<open>
  C7. The resolution of a commit's author is claimed to look among the \<open>User\<close> nodes.
  The query of \<open>find\<close> carries no label, so any node with a \<open>name\<close> matches: with a
  project named \<open>Jane Doe Thesis\<close>, no user in the graph and a commit by \<open>Jane Doe\<close>,
  the commit gets its author and committer edges to the \<open>Project\<close> node (node 0).
\<close>

theorem commit_author_linked_to_project_node:
  "commit_transform
     [\<lparr>label = Project, nprops = [(''id'', PInt 1), (''name'', PStr ''Jane Doe Thesis'')]\<rparr>]
     [(''id'', PStr ''4f2a''), (''author_name'', PStr ''Jane Doe''),
      (''committer_name'', PStr ''Jane Doe''), (''parent_ids'', PList [])]
   = ([\<lparr>label = Project, nprops = [(''id'', PInt 1), (''name'', PStr ''Jane Doe Thesis'')]\<rparr>,
       \<lparr>label = Commit, nprops = [(''id'', PStr ''4f2a''), (''author_name'', PStr ''Jane Doe''),
                                  (''committer_name'', PStr ''Jane Doe'')]\<rparr>],
      Inr \<lparr>ident = 1, cls = Commit,
           props = [(''id'', PStr ''4f2a''), (''author_name'', PStr ''Jane Doe''),
                    (''committer_name'', PStr ''Jane Doe'')],
           rels = [(''is_author'', [Some 0]), (''is_committer'', [Some 0])]\<rparr>)"
  by (simp add: commit_transform_def commit_link_def find_user_def neo_find_def py_get_def
      Commit_fields_def rel_update_def targets_def Let_def graph_create_def passes_def)

text \<open>
  Among nodes that are all users, \<open>_find_user\<close> does what is claimed: the full name
  first, then the last token, then no edge.
\<close>

lemma find_user_full_name_first:
  "neo_find User g nm = Some n \<Longrightarrow> find_user g (Some nm) = ([nm], Inr (Some n))"
  by (simp add: find_user_def)

lemma find_user_surname_fallback:
  "neo_find User g nm = None \<Longrightarrow> py_split nm \<noteq> [] \<Longrightarrow>
     find_user g (Some nm) = ([nm, last (py_split nm)], Inr (neo_find User g (last (py_split nm))))"
  by (simp add: find_user_def split: list.splits)

lemma find_user_examples:
  "find_user [\<lparr>label = User, nprops = [(''id'', PInt 7), (''name'', PStr ''Jane Doe'')]\<rparr>]
     (Some ''Jane Doe'') = ([''Jane Doe''], Inr (Some 0))"
  "find_user [\<lparr>label = User, nprops = [(''id'', PInt 8), (''name'', PStr ''John Doe'')]\<rparr>]
     (Some ''Some Doe'') = ([''Some Doe'', ''Doe''], Inr (Some 0))"
  "find_user [\<lparr>label = User, nprops = [(''id'', PInt 8), (''name'', PStr ''John Doe'')]\<rparr>]
     (Some ''Max Miller'') = ([''Max Miller'', ''Miller''], Inr None)"
  by (simp_all add: find_user_def neo_find_def py_get_def py_split_def is_space_def)

text \<open>
  C4. A relationship target that cannot be resolved is claimed never to raise. A
  commit whose author name is two blanks names no node of the graph; the surname
  fallback then indexes an empty list of tokens and the transform of the commit raises
  \<open>IndexError\<close> (the defect of C10).
\<close>

theorem commit_whitespace_author_raises:
  "commit_transform
     [\<lparr>label = User, nprops = [(''id'', PInt 7), (''name'', PStr ''Jane Doe'')]\<rparr>]
     [(''id'', PStr ''4f2a''), (''author_name'', PStr ''  ''),
      (''committer_name'', PStr ''  ''), (''parent_ids'', PList [])]
   = ([\<lparr>label = User, nprops = [(''id'', PInt 7), (''name'', PStr ''Jane Doe'')]\<rparr>,
       \<lparr>label = Commit, nprops = [(''id'', PStr ''4f2a''), (''author_name'', PStr ''  ''),
                                  (''committer_name'', PStr ''  '')]\<rparr>],
      Inl IndexError)"
  by (simp add: commit_transform_def commit_link_def find_user_def neo_find_def py_get_def
      Commit_fields_def py_split_def is_space_def Let_def graph_create_def passes_def)

section \<open>Properties of the merge request pipeline\<close>

text \<open>
  The digit class and the conversion of the code agree with the table and with
  positional notation, and the matcher returns the digits exactly on the language of
  the pattern.
\<close>

lemma digit_value_char:
  "(let n = (of_char c :: nat) in if 48 \<le> n \<and> n \<le> 57 then Some (int n - 48) else None)
     = map_of ascii_digits [c]"
proof -
  define n where "n = (of_char c :: nat)"
  have e: "\<And>d. (c = d) = (n = of_char d)" unfolding n_def by simp
  have d: "n < 48 \<or> n = 48 \<or> n = 49 \<or> n = 50 \<or> n = 51 \<or> n = 52 \<or> n = 53
    \<or> n = 54 \<or> n = 55 \<or> n = 56 \<or> n = 57 \<or> 57 < n" by arith
  have "(if 48 \<le> n \<and> n \<le> 57 then Some (int n - 48) else None) = map_of ascii_digits [c]"
    unfolding ascii_digits_def using d by (elim disjE) (simp_all add: e)
  then show ?thesis unfolding n_def Let_def .
qed


lemma concat_code_points: "concat (code_points s) = s"
  by (induction s rule: code_points.induct) simp_all

lemma digit_value_eq_spec: "digit_value dv cp = digit_spec dv cp"
proof (cases cp)
  case Nil
  then show ?thesis by (simp add: digit_value_def digit_spec_def ascii_digits_def)
next
  case (Cons c rest)
  show ?thesis
  proof (cases rest)
    case Nil
    have "digit_spec dv [c] = map_of ascii_digits [c]"
      by (simp add: digit_spec_def split: option.splits)
    then show ?thesis using Cons Nil digit_value_char [of c] by (simp add: digit_value_def)
  next
    case (Cons d rest')
    then show ?thesis using \<open>cp = c # rest\<close>
      by (simp add: digit_value_def digit_spec_def ascii_digits_def)
  qed
qed

lemma decimal_snoc: "decimal (vs @ [v]) = 10 * decimal vs + v"
proof -
  have "(\<Sum>i < length vs. (vs @ [v]) ! i * 10 ^ (length vs - i))
      = (\<Sum>i < length vs. 10 * (vs ! i * 10 ^ (length vs - Suc i)))"
  proof (rule sum.cong)
    fix i assume "i \<in> {..<length vs}"
    then have i: "i < length vs" by simp
    then have "length vs - i = Suc (length vs - Suc i)" by simp
    then show "(vs @ [v]) ! i * 10 ^ (length vs - i) = 10 * (vs ! i * 10 ^ (length vs - Suc i))"
      using i by (simp add: nth_append)
  qed simp
  then show ?thesis by (simp add: decimal_def sum_distrib_left)
qed

lemma int_of_digits_decimal:
  "map (digit_value dv) ds = map Some vals \<Longrightarrow> int_of_digits dv ds = decimal vals"
proof (induction ds arbitrary: vals rule: rev_induct)
  case Nil
  then show ?case by (simp add: int_of_digits_def decimal_def)
next
  case (snoc d ds)
  from snoc.prems obtain vs v where vals: "vals = vs @ [v]"
    and m: "map (digit_value dv) ds = map Some vs" and dv: "digit_value dv d = Some v"
    by (cases vals rule: rev_cases) auto
  from snoc.IH [OF m] have "int_of_digits dv ds = decimal vs" .
  then show ?case using dv by (simp add: int_of_digits_def vals decimal_snoc)
qed

lemma digits_have_values:
  "(\<forall>cp \<in> set ds. is_digit dv cp) \<longleftrightarrow> (\<exists>vals. map (digit_value dv) ds = map Some vals)"
proof
  assume "\<forall>cp \<in> set ds. is_digit dv cp"
  then have "map (digit_value dv) ds = map Some (map (\<lambda>cp. the (digit_value dv cp)) ds)"
    by (auto simp: is_digit_def)
  then show "\<exists>vals. map (digit_value dv) ds = map Some vals" by blast
next
  assume "\<exists>vals. map (digit_value dv) ds = map Some vals"
  then obtain vals where m: "map (digit_value dv) ds = map Some vals" by blast
  show "\<forall>cp \<in> set ds. is_digit dv cp"
  proof
    fix cp assume "cp \<in> set ds"
    then have "digit_value dv cp \<in> set (map (digit_value dv) ds)" by simp
    then show "is_digit dv cp" unfolding m is_digit_def by auto
  qed
qed

lemma dash_not_digit: "\<not> is_digit dv ''-''"
  by (simp add: is_digit_def digit_value_def)

lemma tw_body:
  assumes "[newline] \<notin> set body" and "tail = [] \<or> tail = [newline] # []"
  shows "takeWhile (\<lambda>cp. cp \<noteq> [newline]) (body @ tail) = body"
    and "dropWhile (\<lambda>cp. cp \<noteq> [newline]) (body @ tail) = tail"
proof -
  have all: "\<And>cp. cp \<in> set body \<Longrightarrow> cp \<noteq> [newline]" using assms(1) by auto
  have t: "takeWhile (\<lambda>cp. cp \<noteq> [newline]) tail = []"
    "dropWhile (\<lambda>cp. cp \<noteq> [newline]) tail = tail"
    using assms(2) by auto
  show "takeWhile (\<lambda>cp. cp \<noteq> [newline]) (body @ tail) = body"
    using takeWhile_append2 [of body "\<lambda>cp. cp \<noteq> [newline]" tail] all t by simp
  show "dropWhile (\<lambda>cp. cp \<noteq> [newline]) (body @ tail) = tail"
    using dropWhile_append2 [of body "\<lambda>cp. cp \<noteq> [newline]" tail] all t by simp
qed

lemma dot_plus_end_iff:
  "dot_plus_end cps \<longleftrightarrow>
     (\<exists>body tail. cps = body @ tail \<and> body \<noteq> [] \<and> [newline] \<notin> set body
        \<and> (tail = [] \<or> tail = [newline] # []))"
proof
  assume a: "dot_plus_end cps"
  let ?b = "takeWhile (\<lambda>cp. cp \<noteq> [newline]) cps"
  let ?t = "dropWhile (\<lambda>cp. cp \<noteq> [newline]) cps"
  have 1: "cps = ?b @ ?t" by simp
  have 2: "[newline] \<notin> set ?b" by (auto dest: set_takeWhileD)
  have 3: "?b \<noteq> []" "?t = [] \<or> ?t = [newline] # []"
    using a by (simp_all add: dot_plus_end_def Let_def)
  show "\<exists>body tail. cps = body @ tail \<and> body \<noteq> [] \<and> [newline] \<notin> set body
        \<and> (tail = [] \<or> tail = [newline] # [])"
    by (rule exI [of _ ?b], rule exI [of _ ?t]) (use 1 2 3 in blast)
next
  assume "\<exists>body tail. cps = body @ tail \<and> body \<noteq> [] \<and> [newline] \<notin> set body
        \<and> (tail = [] \<or> tail = [newline] # [])"
  then obtain body tail where s: "cps = body @ tail" and b: "body \<noteq> []" "[newline] \<notin> set body"
    and t: "tail = [] \<or> tail = [newline] # []" by blast
  show "dot_plus_end cps"
    using b t tw_body [OF b(2) t] by (simp add: dot_plus_end_def Let_def s)
qed

lemma re_match_branch_iff:
  "re_match_branch dv s = Some ds \<longleftrightarrow>
     (\<exists>body tail. code_points s = ds @ [''-''] @ body @ tail
        \<and> ds \<noteq> [] \<and> (\<forall>cp \<in> set ds. is_digit dv cp)
        \<and> body \<noteq> [] \<and> [newline] \<notin> set body \<and> (tail = [] \<or> tail = [newline] # []))"
proof
  assume a: "re_match_branch dv s = Some ds"
  let ?d = "takeWhile (is_digit dv) (code_points s)"
  let ?r = "dropWhile (is_digit dv) (code_points s)"
  have d: "?d \<noteq> []" using a by (simp add: re_match_branch_def Let_def split: if_splits)
  have dd: "ds = ?d"
    using a by (simp add: re_match_branch_def Let_def split: if_splits list.splits)
  obtain rest where r: "?r = ''-'' # rest" and dp: "dot_plus_end rest"
    using a by (simp add: re_match_branch_def Let_def split: if_splits list.splits)
  from dp obtain body tail where bt: "rest = body @ tail" "body \<noteq> []" "[newline] \<notin> set body"
      "tail = [] \<or> tail = [newline] # []"
    unfolding dot_plus_end_iff by blast
  have "code_points s = ?d @ ?r" by simp
  then have 1: "code_points s = ds @ [''-''] @ body @ tail" using r bt(1) dd by simp
  have 2: "\<forall>cp \<in> set ds. is_digit dv cp" unfolding dd by (auto dest: set_takeWhileD)
  have 3: "ds \<noteq> []" using d dd by simp
  show "\<exists>body tail. code_points s = ds @ [''-''] @ body @ tail
        \<and> ds \<noteq> [] \<and> (\<forall>cp \<in> set ds. is_digit dv cp)
        \<and> body \<noteq> [] \<and> [newline] \<notin> set body \<and> (tail = [] \<or> tail = [newline] # [])"
    by (rule exI [of _ body], rule exI [of _ tail]) (use 1 2 3 bt in blast)
next
  assume "\<exists>body tail. code_points s = ds @ [''-''] @ body @ tail
        \<and> ds \<noteq> [] \<and> (\<forall>cp \<in> set ds. is_digit dv cp)
        \<and> body \<noteq> [] \<and> [newline] \<notin> set body \<and> (tail = [] \<or> tail = [newline] # [])"
  then obtain body tail where s: "code_points s = ds @ [''-''] @ body @ tail" and d: "ds \<noteq> []"
    "\<forall>cp \<in> set ds. is_digit dv cp"
    and bt: "body \<noteq> []" "[newline] \<notin> set body" "tail = [] \<or> tail = [newline] # []"
    by blast
  have all: "\<And>cp. cp \<in> set ds \<Longrightarrow> is_digit dv cp" using d(2) by blast
  have tw: "takeWhile (is_digit dv) (code_points s) = ds"
    unfolding s using takeWhile_append2 [of ds "is_digit dv" "[''-''] @ body @ tail"] all
    by (simp add: dash_not_digit)
  have dw: "dropWhile (is_digit dv) (code_points s) = ''-'' # body @ tail"
    unfolding s using dropWhile_append2 [of ds "is_digit dv" "[''-''] @ body @ tail"] all
    by (simp add: dash_not_digit)
  have "dot_plus_end (body @ tail)" unfolding dot_plus_end_iff using bt by blast
  then show "re_match_branch dv s = Some ds"
    using d(1) by (simp add: re_match_branch_def tw dw Let_def)
qed

lemma branch_pattern_iff:
  "branch_pattern dv s vals \<longleftrightarrow>
     (\<exists>ds. re_match_branch dv s = Some ds \<and> map (digit_value dv) ds = map Some vals)"
proof
  assume "branch_pattern dv s vals"
  then obtain ds body tail where p: "code_points s = ds @ [''-''] @ body @ tail" "ds \<noteq> []"
    "map (digit_spec dv) ds = map Some vals" "body \<noteq> []" "[newline] \<notin> set body"
    "tail = [] \<or> tail = [newline] # []"
    unfolding branch_pattern_def by blast
  have m: "map (digit_value dv) ds = map Some vals"
    using p(3) by (simp add: digit_value_eq_spec [abs_def])
  then have "\<forall>cp \<in> set ds. is_digit dv cp" unfolding digits_have_values by blast
  then have "re_match_branch dv s = Some ds"
    unfolding re_match_branch_iff using p by blast
  then show "\<exists>ds. re_match_branch dv s = Some ds \<and> map (digit_value dv) ds = map Some vals"
    using m by blast
next
  assume "\<exists>ds. re_match_branch dv s = Some ds \<and> map (digit_value dv) ds = map Some vals"
  then obtain ds where r: "re_match_branch dv s = Some ds"
    and m: "map (digit_value dv) ds = map Some vals" by blast
  from r obtain body tail where p: "code_points s = ds @ [''-''] @ body @ tail" "ds \<noteq> []"
    "body \<noteq> []" "[newline] \<notin> set body" "tail = [] \<or> tail = [newline] # []"
    unfolding re_match_branch_iff by blast
  have "map (digit_spec dv) ds = map Some vals"
    using m by (simp add: digit_value_eq_spec [abs_def])
  then show "branch_pattern dv s vals"
    unfolding branch_pattern_def using p by blast
qed

lemma targets_rel_update:
  "targets (rel_update obj r t) r' =
     (if r' = r \<and> t \<notin> set (targets obj r) then targets obj r @ [t] else targets obj r')"
  by (simp add: rel_update_def targets_def map_of_dict_set)

lemma get_Some:
  "get c g filters = Some obj \<Longrightarrow>
     ident obj < length g \<and> passes c filters (g ! ident obj) \<and> obj = wrap g (ident obj)"
  by (auto simp: get_def wrap_def dest!: first_match_bound)

lemma get_None: "get c g filters = None \<longleftrightarrow> (\<forall>n \<in> set g. \<not> passes c filters n)"
  by (simp add: get_def first_match_None)

text \<open>
  C6. For a merge request whose \<open>source_branch\<close> is a string and whose
  \<open>is_related\<close> set is still empty, the step raises nothing; every edge it creates
  goes to an \<open>Issue\<close> node whose \<open>iid\<close> is the number written by the digits before
  the hyphen; and an edge is created exactly when the branch name is in the language
  of the pattern and such an issue node exists.
\<close>

theorem mr_related_issue_iff:
  assumes "py_get (props mr) ''source_branch'' = PStr s" and "targets mr ''is_related'' = []"
  shows "\<exists>mr'. mr_related_issue dv g mr = Inr mr'
     \<and> (\<forall>i \<in> set (linked mr' ''is_related'').
           i < length g \<and> label (g ! i) = Issue
           \<and> (\<exists>vals. branch_pattern dv s vals
                 \<and> py_get (nprops (g ! i)) ''iid'' = PInt (decimal vals)))
     \<and> ((\<exists>vals. branch_pattern dv s vals
            \<and> (\<exists>n \<in> set g. label n = Issue \<and> py_get (nprops n) ''iid'' = PInt (decimal vals)))
          \<longleftrightarrow> linked mr' ''is_related'' \<noteq> [])"
proof (cases "re_match_branch dv s")
  case None
  then have no: "\<And>vals. \<not> branch_pattern dv s vals" by (simp add: branch_pattern_iff)
  have "mr_related_issue dv g mr = Inr mr" using assms(1) None by (simp add: mr_related_issue_def)
  moreover have "linked mr ''is_related'' = []" using assms(2) by (simp add: linked_def)
  ultimately show ?thesis using no by simp
next
  case (Some ds)
  then have dig: "\<forall>cp \<in> set ds. is_digit dv cp" and ne: "ds \<noteq> []"
    unfolding re_match_branch_iff by blast+
  from dig obtain vals where m: "map (digit_value dv) ds = map Some vals"
    unfolding digits_have_values by blast
  have bp: "branch_pattern dv s vals" unfolding branch_pattern_iff using Some m by blast
  have num: "int_of_digits dv ds = decimal vals" by (rule int_of_digits_decimal [OF m])
  have uniq: "\<And>vals'. branch_pattern dv s vals' \<Longrightarrow> vals' = vals"
  proof -
    fix vals' assume "branch_pattern dv s vals'"
    then have "map (digit_value dv) ds = map Some vals'"
      unfolding branch_pattern_iff using Some by simp
    then have "map Some vals' = map Some vals" using m by simp
    then show "vals' = vals" by (simp add: inj_map_eq_map)
  qed
  show ?thesis
  proof (cases "get Issue g [(''iid'', PInt (decimal vals))]")
    case None
    have "mr_related_issue dv g mr = Inr mr"
      using assms(1) Some None ne num by (simp add: mr_related_issue_def)
    moreover have "linked mr ''is_related'' = []" using assms(2) by (simp add: linked_def)
    moreover have "\<not> (\<exists>vals'. branch_pattern dv s vals'
            \<and> (\<exists>n \<in> set g. label n = Issue \<and> py_get (nprops n) ''iid'' = PInt (decimal vals')))"
      using None uniq by (auto simp: get_None passes_def)
    ultimately show ?thesis by simp
  next
    case (Some issue)
    let ?mr = "rel_update mr ''is_related'' (Some (ident issue))"
    from get_Some [OF Some] have i: "ident issue < length g"
      "label (g ! ident issue) = Issue"
      "py_get (nprops (g ! ident issue)) ''iid'' = PInt (decimal vals)"
      by (simp_all add: passes_def)
    have "mr_related_issue dv g mr = Inr ?mr"
      using assms(1) \<open>re_match_branch dv s = Some ds\<close> Some ne num
      by (simp add: mr_related_issue_def)
    moreover have l: "linked ?mr ''is_related'' = [ident issue]"
      using assms(2) by (simp add: linked_def targets_rel_update)
    moreover have "\<exists>n \<in> set g. label n = Issue \<and> py_get (nprops n) ''iid'' = PInt (decimal vals)"
      using i by (metis nth_mem)
    ultimately show ?thesis using bp i by auto
  qed
qed

theorem mr_related_issue_iff_witness:
  "py_get (props \<lparr>ident = 1, cls = MergeRequest,
                   props = [(''id'', PInt 9), (''source_branch'', PStr ''42-fix-bug'')],
                   rels = []\<rparr>) ''source_branch'' = PStr ''42-fix-bug''
   \<and> targets \<lparr>ident = 1, cls = MergeRequest,
                props = [(''id'', PInt 9), (''source_branch'', PStr ''42-fix-bug'')],
                rels = []\<rparr> ''is_related'' = []
   \<and> re_match_branch arabic_indic ''42-fix-bug'' = Some [''4'', ''2'']
   \<and> decimal [4, 2] = 42
   \<and> mr_related_issue arabic_indic
        [\<lparr>label = Issue, nprops = [(''id'', PInt 7), (''iid'', PInt 42)]\<rparr>]
        \<lparr>ident = 1, cls = MergeRequest,
         props = [(''id'', PInt 9), (''source_branch'', PStr ''42-fix-bug'')],
         rels = []\<rparr>
       = Inr \<lparr>ident = 1, cls = MergeRequest,
              props = [(''id'', PInt 9), (''source_branch'', PStr ''42-fix-bug'')],
              rels = [(''is_related'', [Some 0])]\<rparr>"
proof -
  let ?mr = "\<lparr>ident = 1, cls = MergeRequest,
                props = [(''id'', PInt 9), (''source_branch'', PStr ''42-fix-bug'')],
                rels = []\<rparr>"
  have 1: "py_get (props ?mr) ''source_branch'' = PStr ''42-fix-bug''" by (simp add: py_get_def)
  have 2: "targets ?mr ''is_related'' = []" by (simp add: targets_def)
  have 3: "re_match_branch arabic_indic ''42-fix-bug'' = Some [''4'', ''2'']"
    by (simp add: re_match_branch_def utf8_len_def is_digit_def digit_value_def
        dot_plus_end_def newline_def)
  have 4: "decimal [4, 2] = 42" by (simp add: decimal_def lessThan_Suc numeral_2_eq_2)
  have n: "int_of_digits arabic_indic [''4'', ''2''] = 42"
    by (simp add: int_of_digits_def digit_value_def)
  have 5: "mr_related_issue arabic_indic
        [\<lparr>label = Issue, nprops = [(''id'', PInt 7), (''iid'', PInt 42)]\<rparr>] ?mr
       = Inr \<lparr>ident = 1, cls = MergeRequest,
              props = [(''id'', PInt 9), (''source_branch'', PStr ''42-fix-bug'')],
              rels = [(''is_related'', [Some 0])]\<rparr>"
    using 3 n by (simp add: mr_related_issue_def py_get_def get_def passes_def wrap_def
        rel_update_def targets_def)
  show ?thesis
    using mr_related_issue_iff [OF 1 2, of arabic_indic
        "[\<lparr>label = Issue, nprops = [(''id'', PInt 7), (''iid'', PInt 42)]\<rparr>]"] 1 2 3 4 5
    by blast
qed

text \<open>A branch name without a numeric prefix, a prefix that names no issue, a prefix
  with a leading zero, a merge request without a source branch, and a prefix written
  in Arabic-Indic digits.\<close>

lemma mr_related_issue_examples:
  "mr_related_issue dv [\<lparr>label = Issue, nprops = [(''id'', PInt 7), (''iid'', PInt 42)]\<rparr>]
      \<lparr>ident = 1, cls = MergeRequest,
       props = [(''id'', PInt 9), (''source_branch'', PStr ''fixbug'')], rels = []\<rparr>
    = Inr \<lparr>ident = 1, cls = MergeRequest,
           props = [(''id'', PInt 9), (''source_branch'', PStr ''fixbug'')], rels = []\<rparr>"
  "mr_related_issue dv [\<lparr>label = Issue, nprops = [(''id'', PInt 7), (''iid'', PInt 42)]\<rparr>]
      \<lparr>ident = 1, cls = MergeRequest,
       props = [(''id'', PInt 9), (''source_branch'', PStr ''43-other'')], rels = []\<rparr>
    = Inr \<lparr>ident = 1, cls = MergeRequest,
           props = [(''id'', PInt 9), (''source_branch'', PStr ''43-other'')], rels = []\<rparr>"
  "mr_related_issue dv [\<lparr>label = Issue, nprops = [(''id'', PInt 7), (''iid'', PInt 42)]\<rparr>]
      \<lparr>ident = 1, cls = MergeRequest,
       props = [(''id'', PInt 9), (''source_branch'', PStr ''042-x'')], rels = []\<rparr>
    = Inr \<lparr>ident = 1, cls = MergeRequest,
           props = [(''id'', PInt 9), (''source_branch'', PStr ''042-x'')],
           rels = [(''is_related'', [Some 0])]\<rparr>"
  "mr_related_issue dv g \<lparr>ident = 1, cls = MergeRequest, props = [(''id'', PInt 9)], rels = []\<rparr>
    = Inl TypeError"
  by (simp_all add: mr_related_issue_def py_get_def re_match_branch_def utf8_len_def
      is_digit_def digit_value_def dot_plus_end_def newline_def int_of_digits_def
      get_def passes_def wrap_def rel_update_def targets_def)

lemma mr_related_issue_unicode_digits:
  "mr_related_issue arabic_indic
      [\<lparr>label = Issue, nprops = [(''id'', PInt 7), (''iid'', PInt 42)]\<rparr>]
      \<lparr>ident = 1, cls = MergeRequest,
       props = [(''id'', PInt 9),
                (''source_branch'',
                 PStr [CHR 0xD9, CHR 0xA4, CHR 0xD9, CHR 0xA2, CHR ''-'', CHR ''x''])],
       rels = []\<rparr>
    = Inr \<lparr>ident = 1, cls = MergeRequest,
           props = [(''id'', PInt 9),
                    (''source_branch'',
                     PStr [CHR 0xD9, CHR 0xA4, CHR 0xD9, CHR 0xA2, CHR ''-'', CHR ''x''])],
           rels = [(''is_related'', [Some 0])]\<rparr>"
  by (simp add: mr_related_issue_def py_get_def re_match_branch_def utf8_len_def
      is_digit_def digit_value_def dot_plus_end_def newline_def int_of_digits_def
      get_def passes_def wrap_def rel_update_def targets_def arabic_indic_def)

section \<open>Properties of the orchestration\<close>

text \<open>
  Both loops of \<open>process_pipelines\<close> make their calls one after the other up to the
  first that raises, so \<open>process_pipelines\<close> is the constructors followed by one such
  run over the requests and then the transform and commit pairs.
\<close>

lemma construct_all_names: "construct_all I cfg ps w = (w', Inr qs) \<Longrightarrow> qs = ps"
proof (induction ps arbitrary: w qs)
  case Nil
  then show ?case by simp
next
  case (Cons p ps)
  then show ?case
    by (auto split: prod.splits option.splits sum.splits)
qed

lemma run_calls_append:
  "run_calls I (xs @ ys) w log =
     (case run_calls I xs w log of
        (l, w1, Some e) \<Rightarrow> (l, w1, Some e)
      | (l, w1, None) \<Rightarrow> run_calls I ys w1 l)"
proof (induction xs arbitrary: w log)
  case Nil
  then show ?case by simp
next
  case (Cons x xs)
  obtain p ph where x: "x = (p, ph)" by (cases x)
  show ?case
  proof (cases "invoke I p ph w")
    case (Pair w1 r)
    then show ?thesis using Cons.IH [of w1 "log @ [(p, ph)]"] x by (cases r) simp_all
  qed
qed

lemma request_all_run:
  "request_all I ps w log = run_calls I (request_calls ps) w log"
proof (induction ps arbitrary: w log)
  case Nil
  then show ?case by (simp add: request_calls_def)
next
  case (Cons p ps)
  show ?case
  proof (cases "invoke I p RequestData w")
    case (Pair w1 r)
    then show ?thesis
      using Cons.IH [of w1 "log @ [(p, RequestData)]"]
      by (cases r) (simp_all add: request_calls_def)
  qed
qed

lemma transform_commit_all_run:
  "transform_commit_all I ps w log = run_calls I (transform_commit_calls ps) w log"
proof (induction ps arbitrary: w log)
  case Nil
  then show ?case by (simp add: transform_commit_calls_def)
next
  case (Cons p ps)
  show ?case
  proof (cases "invoke I p TransformData w")
    case (Pair w1 r)
    note t = this
    show ?thesis
    proof (cases r)
      case (Some e)
      then show ?thesis using t by (simp add: transform_commit_calls_def)
    next
      case None
      show ?thesis
      proof (cases "invoke I p CommitData w1")
        case (Pair w2 r2)
        then show ?thesis
          using t None Cons.IH [of w2 "log @ [(p, TransformData), (p, CommitData)]"]
          by (cases r2) (simp_all add: transform_commit_calls_def)
      qed
    qed
  qed
qed

lemma run_calls_log:
  "prefix (fst (run_calls I cs w log)) (log @ cs)
   \<and> (snd (snd (run_calls I cs w log)) = None \<longrightarrow> fst (run_calls I cs w log) = log @ cs)"
proof (induction cs arbitrary: w log)
  case Nil
  then show ?case by simp
next
  case (Cons x cs)
  obtain p ph where x: "x = (p, ph)" by (cases x)
  show ?case
  proof (cases "invoke I p ph w")
    case (Pair w1 r)
    show ?thesis
    proof (cases r)
      case (Some e)
      then show ?thesis using Pair x by simp
    next
      case None
      then show ?thesis using Pair x Cons.IH [of w1 "log @ [(p, ph)]"] by simp
    qed
  qed
qed

lemma process_pipelines_run:
  "process_pipelines I cfg w =
     (case get_pipelines I cfg w of
        (w0, Inl e) \<Rightarrow> ([], w0, Some e)
      | (w0, Inr pipes) \<Rightarrow>
          run_calls I (request_calls PIPELINES @ transform_commit_calls PIPELINES) w0 [])"
proof (cases "get_pipelines I cfg w")
  case (Pair w0 r)
  show ?thesis
  proof (cases r)
    case (Inl e)
    then show ?thesis using Pair by (simp add: process_pipelines_def)
  next
    case (Inr pipes)
    then have "pipes = PIPELINES"
      using Pair construct_all_names [of I cfg PIPELINES w w0 pipes] by (simp add: get_pipelines_def)
    then show ?thesis
      using Pair Inr
      by (simp add: process_pipelines_def request_all_run transform_commit_all_run
          run_calls_append split: prod.splits option.splits)
  qed
qed

lemma expected_calls:
  "request_calls PIPELINES @ transform_commit_calls PIPELINES =
     [(''UserPipeline'', RequestData), (''LabelPipeline'', RequestData),
      (''MilestonePipeline'', RequestData), (''IssuePipeline'', RequestData),
      (''MergeRequestPipeline'', RequestData), (''CommitPipeline'', RequestData),
      (''UserPipeline'', TransformData), (''UserPipeline'', CommitData),
      (''LabelPipeline'', TransformData), (''LabelPipeline'', CommitData),
      (''MilestonePipeline'', TransformData), (''MilestonePipeline'', CommitData),
      (''IssuePipeline'', TransformData), (''IssuePipeline'', CommitData),
      (''MergeRequestPipeline'', TransformData), (''MergeRequestPipeline'', CommitData),
      (''CommitPipeline'', TransformData), (''CommitPipeline'', CommitData)]"
  by (simp add: request_calls_def transform_commit_calls_def PIPELINES_def)

lemma get_pipelines_recorder:
  "get_pipelines recorder cfg w =
     (w @ [Built ''UserPipeline'', Built ''LabelPipeline'', Built ''MilestonePipeline'',
           Built ''IssuePipeline'', Built ''MergeRequestPipeline'', Built ''CommitPipeline''],
      Inr PIPELINES)"
  by (simp add: get_pipelines_def PIPELINES_def recorder_def)

lemma run_calls_recorder:
  "run_calls recorder cs w log = (log @ cs, w @ map (\<lambda>(p, ph). Called p ph) cs, None)"
proof (induction cs arbitrary: w log)
  case Nil
  then show ?case by simp
next
  case (Cons x cs)
  obtain p ph where x: "x = (p, ph)" by (cases x)
  have "invoke recorder p ph w = (w @ [Called p ph], None)" by (simp add: recorder_def)
  then show ?case using Cons.IH [of "w @ [Called p ph]" "log @ [(p, ph)]"] x by simp
qed

lemma process_pipelines_recorder:
  "process_pipelines recorder cfg w =
     (request_calls PIPELINES @ transform_commit_calls PIPELINES,
      w @ [Built ''UserPipeline'', Built ''LabelPipeline'', Built ''MilestonePipeline'',
           Built ''IssuePipeline'', Built ''MergeRequestPipeline'', Built ''CommitPipeline'']
        @ map (\<lambda>(p, ph). Called p ph) (request_calls PIPELINES @ transform_commit_calls PIPELINES),
      None)"
  by (simp add: process_pipelines_run get_pipelines_recorder run_calls_recorder)

lemma process_pipelines_no_failure:
  "process_pipelines no_failure cfg () =
     (request_calls PIPELINES @ transform_commit_calls PIPELINES, (), None)"
  by (simp add: process_pipelines_def get_pipelines_def PIPELINES_def no_failure_def
      request_calls_def transform_commit_calls_def)

text \<open>
  C3. Whatever the configuration and whatever the pipelines do, \<open>process_pipelines\<close>
  builds the pipelines and then makes the calls of this sequence one after the other,
  on the world each call leaves, up to the first that raises: \<open>request_data\<close> on the
  six pipelines in the order of \<open>PIPELINES\<close>, then \<open>transform_data\<close> and \<open>commit_data\<close>
  on each pipeline in the same order. The calls made are an initial part of the
  sequence, the whole of it when nothing raises; and with constructors and methods that
  write down what they are asked, the world left is the six constructions followed by
  the eighteen calls.
\<close>

theorem process_pipelines_order:
  "(let calls =
     [(''UserPipeline'', RequestData), (''LabelPipeline'', RequestData),
      (''MilestonePipeline'', RequestData), (''IssuePipeline'', RequestData),
      (''MergeRequestPipeline'', RequestData), (''CommitPipeline'', RequestData),
      (''UserPipeline'', TransformData), (''UserPipeline'', CommitData),
      (''LabelPipeline'', TransformData), (''LabelPipeline'', CommitData),
      (''MilestonePipeline'', TransformData), (''MilestonePipeline'', CommitData),
      (''IssuePipeline'', TransformData), (''IssuePipeline'', CommitData),
      (''MergeRequestPipeline'', TransformData), (''MergeRequestPipeline'', CommitData),
      (''CommitPipeline'', TransformData), (''CommitPipeline'', CommitData)]
    in process_pipelines I cfg w =
         (case get_pipelines I cfg w of
            (w0, Inl e) \<Rightarrow> ([], w0, Some e)
          | (w0, Inr pipes) \<Rightarrow> run_calls I calls w0 [])
       \<and> prefix (fst (process_pipelines I cfg w)) calls
       \<and> (snd (snd (process_pipelines I cfg w)) = None \<longrightarrow>
            fst (process_pipelines I cfg w) = calls)
       \<and> process_pipelines recorder cfg [] =
            (calls,
             [Built ''UserPipeline'', Built ''LabelPipeline'', Built ''MilestonePipeline'',
              Built ''IssuePipeline'', Built ''MergeRequestPipeline'', Built ''CommitPipeline'']
               @ map (\<lambda>(p, ph). Called p ph) calls,
             None))"
proof -
  let ?calls = "request_calls PIPELINES @ transform_commit_calls PIPELINES"
  have 1: "process_pipelines I cfg w =
         (case get_pipelines I cfg w of
            (w0, Inl e) \<Rightarrow> ([], w0, Some e)
          | (w0, Inr pipes) \<Rightarrow> run_calls I ?calls w0 [])"
    by (rule process_pipelines_run)
  have 2: "prefix (fst (process_pipelines I cfg w)) ?calls
       \<and> (snd (snd (process_pipelines I cfg w)) = None \<longrightarrow>
            fst (process_pipelines I cfg w) = ?calls)"
  proof (cases "get_pipelines I cfg w")
    case (Pair w0 r)
    show ?thesis
    proof (cases r)
      case (Inl e)
      then show ?thesis using Pair 1 by simp
    next
      case (Inr pipes)
      then have "process_pipelines I cfg w = run_calls I ?calls w0 []" using Pair 1 by simp
      then show ?thesis using run_calls_log [of I ?calls w0 "[]"] by simp
    qed
  qed
  have 3: "process_pipelines recorder cfg [] =
            (?calls,
             [Built ''UserPipeline'', Built ''LabelPipeline'', Built ''MilestonePipeline'',
              Built ''IssuePipeline'', Built ''MergeRequestPipeline'', Built ''CommitPipeline'']
               @ map (\<lambda>(p, ph). Called p ph) ?calls,
             None)"
    using process_pipelines_recorder [of cfg "[]"] by simp
  show ?thesis
    unfolding Let_def expected_calls [symmetric] using 1 2 3 by blast
qed

theorem process_pipelines_order_witness:
  "process_pipelines no_failure sample_config () =
     ([(''UserPipeline'', RequestData), (''LabelPipeline'', RequestData),
       (''MilestonePipeline'', RequestData), (''IssuePipeline'', RequestData),
       (''MergeRequestPipeline'', RequestData), (''CommitPipeline'', RequestData),
       (''UserPipeline'', TransformData), (''UserPipeline'', CommitData),
       (''LabelPipeline'', TransformData), (''LabelPipeline'', CommitData),
       (''MilestonePipeline'', TransformData), (''MilestonePipeline'', CommitData),
       (''IssuePipeline'', TransformData), (''IssuePipeline'', CommitData),
       (''MergeRequestPipeline'', TransformData), (''MergeRequestPipeline'', CommitData),
       (''CommitPipeline'', TransformData), (''CommitPipeline'', CommitData)], (), None)
   \<and> process_pipelines recorder sample_config [] =
     ([(''UserPipeline'', RequestData), (''LabelPipeline'', RequestData),
       (''MilestonePipeline'', RequestData), (''IssuePipeline'', RequestData),
       (''MergeRequestPipeline'', RequestData), (''CommitPipeline'', RequestData),
       (''UserPipeline'', TransformData), (''UserPipeline'', CommitData),
       (''LabelPipeline'', TransformData), (''LabelPipeline'', CommitData),
       (''MilestonePipeline'', TransformData), (''MilestonePipeline'', CommitData),
       (''IssuePipeline'', TransformData), (''IssuePipeline'', CommitData),
       (''MergeRequestPipeline'', TransformData), (''MergeRequestPipeline'', CommitData),
       (''CommitPipeline'', TransformData), (''CommitPipeline'', CommitData)],
      [Built ''UserPipeline'', Built ''LabelPipeline'', Built ''MilestonePipeline'',
       Built ''IssuePipeline'', Built ''MergeRequestPipeline'', Built ''CommitPipeline'',
       Called ''UserPipeline'' RequestData, Called ''LabelPipeline'' RequestData,
       Called ''MilestonePipeline'' RequestData, Called ''IssuePipeline'' RequestData,
       Called ''MergeRequestPipeline'' RequestData, Called ''CommitPipeline'' RequestData,
       Called ''UserPipeline'' TransformData, Called ''UserPipeline'' CommitData,
       Called ''LabelPipeline'' TransformData, Called ''LabelPipeline'' CommitData,
       Called ''MilestonePipeline'' TransformData, Called ''MilestonePipeline'' CommitData,
       Called ''IssuePipeline'' TransformData, Called ''IssuePipeline'' CommitData,
       Called ''MergeRequestPipeline'' TransformData, Called ''MergeRequestPipeline'' CommitData,
       Called ''CommitPipeline'' TransformData, Called ''CommitPipeline'' CommitData],
      None)"
proof -
  have a: "process_pipelines no_failure sample_config () =
     (request_calls PIPELINES @ transform_commit_calls PIPELINES, (), None)"
    by (rule process_pipelines_no_failure)
  have b: "process_pipelines recorder sample_config [] =
     (request_calls PIPELINES @ transform_commit_calls PIPELINES,
      [] @ [Built ''UserPipeline'', Built ''LabelPipeline'', Built ''MilestonePipeline'',
           Built ''IssuePipeline'', Built ''MergeRequestPipeline'', Built ''CommitPipeline'']
        @ map (\<lambda>(p, ph). Called p ph) (request_calls PIPELINES @ transform_commit_calls PIPELINES),
      None)"
    by (rule process_pipelines_recorder)
  show ?thesis
    using process_pipelines_order [of no_failure sample_config "()"] a b
    unfolding expected_calls by simp
qed

lemma get_config_sample: "get_config only_good_ini ''good.ini'' = Inr sample_config"
  by (simp add: get_config_def only_good_ini_def sample_config_def VALID_CONFIG_def has_option_def)

lemma get_config_missing:
  "get_config only_good_ini ''missing.ini'' = Inl (ConfigurationException (NotFound ''missing.ini''))"
  by (simp add: get_config_def only_good_ini_def)

text \<open>
  \<open>get_config\<close> returns the configuration exactly when the file exists and has every
  section and option of \<open>VALID_CONFIG\<close>; otherwise it raises
  \<open>ConfigurationException\<close>.
\<close>

lemma check_params_None:
  "check_params config section params = None \<longleftrightarrow> (\<forall>p \<in> set params. has_option config section p)"
  by (induction params) auto

lemma check_sections_None:
  "check_sections config valid = None \<longleftrightarrow>
     (\<forall>(s, ps) \<in> set valid. s \<in> fst ` set (sections config)
        \<and> (\<forall>p \<in> set ps. has_option config s p))"
proof (induction valid)
  case Nil
  then show ?case by simp
next
  case (Cons x valid)
  obtain s ps where x: "x = (s, ps)" by (cases x)
  show ?case
  proof (cases "s \<in> fst ` set (sections config)")
    case False
    then show ?thesis using x by simp
  next
    case True
    show ?thesis
    proof (cases "check_params config s ps")
      case None
      then have "\<forall>p \<in> set ps. has_option config s p" by (simp add: check_params_None)
      then show ?thesis using None True x Cons.IH by simp
    next
      case (Some e)
      then have "\<not> (\<forall>p \<in> set ps. has_option config s p)"
        using check_params_None [of config s ps] by simp
      then show ?thesis using Some True x by simp
    qed
  qed
qed

lemma check_params_exn:
  "check_params config section params = Some e \<Longrightarrow> \<exists>p. e = ConfigurationException p"
  by (induction params) (auto split: if_splits)

lemma check_sections_exn:
  "check_sections config valid = Some e \<Longrightarrow> \<exists>p. e = ConfigurationException p"
proof (induction valid)
  case Nil
  then show ?case by simp
next
  case (Cons x valid)
  obtain s ps where x: "x = (s, ps)" by (cases x)
  from Cons.prems x show ?case
    by (auto split: if_splits option.splits dest: check_params_exn Cons.IH)
qed

lemma get_config_raises_configuration_exception:
  "get_config files f = Inl e \<Longrightarrow> \<exists>p. e = ConfigurationException p"
  by (auto simp: get_config_def split: option.splits dest: check_sections_exn)

lemma get_config_succeeds_iff:
  "(\<exists>config. get_config files f = Inr config) \<longleftrightarrow>
     (\<exists>config. files f = Some config
        \<and> (\<forall>(s, ps) \<in> set VALID_CONFIG. s \<in> fst ` set (sections config)
              \<and> (\<forall>p \<in> set ps. has_option config s p)))"
  by (auto simp: get_config_def check_sections_None [symmetric] split: option.splits)

lemma get_config_examples:
  "get_config (\<lambda>name. Some (sample_config\<lparr>sections := tl (sections sample_config)\<rparr>)) ''a.ini''
     = Inl (ConfigurationException (SectionMissing ''GITLAB''))"
  "get_config (\<lambda>name. Some (sample_config\<lparr>sections :=
        (''GITLAB'', []) # tl (sections sample_config)\<rparr>)) ''a.ini''
     = Inl (ConfigurationException (ParameterMissing ''token'' ''GITLAB''))"
  "get_config (\<lambda>name. Some (sample_config\<lparr>defaults := [(''token'', ''f00b4r'')], sections :=
        (''GITLAB'', []) # tl (sections sample_config)\<rparr>)) ''a.ini''
     = Inr (sample_config\<lparr>defaults := [(''token'', ''f00b4r'')], sections :=
        (''GITLAB'', []) # tl (sections sample_config)\<rparr>)"
  by (simp_all add: get_config_def sample_config_def VALID_CONFIG_def has_option_def)

text \<open>The loop over a list of files is the loop over its first part followed, when
  that raised nothing, by the loop over the rest; and every call it records belongs to
  a file for which \<open>get_config\<close> returned a configuration.\<close>

lemma main_loop_append:
  "main_loop I files (xs @ ys) w log =
     (case main_loop I files xs w log of
        (l, w1, Some e) \<Rightarrow> (l, w1, Some e)
      | (l, w1, None) \<Rightarrow> main_loop I files ys w1 l)"
proof (induction xs arbitrary: w log)
  case Nil
  then show ?case by simp
next
  case (Cons x xs)
  show ?case
  proof (cases "get_config files x")
    case (Inl e)
    then show ?thesis by simp
  next
    case (Inr cfg)
    obtain calls w1 r where pp: "process_pipelines I cfg w = (calls, w1, r)"
      by (cases "process_pipelines I cfg w") auto
    show ?thesis
      using Inr pp Cons.IH [of w1 "log @ map (Pair x) calls"] by (cases r) simp_all
  qed
qed

lemma main_loop_log:
  "set (fst (main_loop I files xs w log))
     \<subseteq> set log \<union> {c. fst c \<in> set xs \<and> (\<exists>cfg. get_config files (fst c) = Inr cfg)}"
proof (induction xs arbitrary: w log)
  case Nil
  then show ?case by simp
next
  case (Cons x xs)
  show ?case
  proof (cases "get_config files x")
    case (Inl e)
    then show ?thesis by auto
  next
    case (Inr cfg)
    obtain calls w1 r where pp: "process_pipelines I cfg w = (calls, w1, r)"
      by (cases "process_pipelines I cfg w") auto
    have sub: "set (log @ map (Pair x) calls)
        \<subseteq> set log \<union> {c. fst c \<in> set (x # xs) \<and> (\<exists>cfg. get_config files (fst c) = Inr cfg)}"
      using Inr by auto
    show ?thesis
    proof (cases r)
      case (Some e)
      then show ?thesis using Inr pp sub by simp
    next
      case None
      from Cons.IH [of w1 "log @ map (Pair x) calls"]
      show ?thesis using Inr pp None sub by auto
    qed
  qed
qed

text \<open>
  C5. A configuration file that is missing, or that lacks a required section or
  option, makes \<open>get_config\<close> raise. Nothing catches the exception, so the files after
  it play no part in the run and the run ends with an exception. When the files before
  it were processed without an exception, the run ends with the exception of
  \<open>get_config\<close> itself, with the calls and the world exactly as those files left
  them: no pipeline of the failing configuration is built or run. No recorded call
  belongs to the failing file.
\<close>

theorem configuration_error_aborts_batch:
  assumes "get_config files f = Inl e"
  shows "main I files (pre @ f # rest) w = main I files (pre @ [f]) w
     \<and> (\<exists>e'. snd (snd (main I files (pre @ f # rest) w)) = Some e')
     \<and> (\<forall>log w'. main I files pre w = (log, w', None) \<longrightarrow>
           main I files (pre @ f # rest) w = (log, w', Some e))
     \<and> (\<forall>c \<in> set (fst (main I files (pre @ f # rest) w)). fst c \<in> set pre \<and> fst c \<noteq> f)"
proof -
  obtain l w1 r where p: "main_loop I files pre w [] = (l, w1, r)"
    by (cases "main_loop I files pre w []") auto
  have ab: "\<And>ys. main_loop I files (pre @ f # ys) w [] =
      (case r of Some e' \<Rightarrow> (l, w1, Some e') | None \<Rightarrow> (l, w1, Some e))"
    using p assms by (simp add: main_loop_append split: option.splits)
  have 1: "main I files (pre @ f # rest) w = main I files (pre @ [f]) w"
    unfolding main_def ab [of rest] ab [of "[]"] ..
  have 2: "\<exists>e'. snd (snd (main I files (pre @ f # rest) w)) = Some e'"
    unfolding main_def ab [of rest] by (cases r) simp_all
  have 3: "\<forall>log w'. main I files pre w = (log, w', None) \<longrightarrow>
           main I files (pre @ f # rest) w = (log, w', Some e)"
    unfolding main_def ab [of rest] using p by auto
  have "fst (main I files (pre @ f # rest) w) = l"
    unfolding main_def ab [of rest] by (cases r) simp_all
  moreover have "set l \<subseteq> {c. fst c \<in> set pre \<and> (\<exists>cfg. get_config files (fst c) = Inr cfg)}"
    using main_loop_log [of I files pre w "[]"] p by simp
  ultimately have 4: "\<forall>c \<in> set (fst (main I files (pre @ f # rest) w)).
      fst c \<in> set pre \<and> fst c \<noteq> f"
    using assms by auto
  show ?thesis using 1 2 3 4 by blast
qed

theorem configuration_error_aborts_batch_witness:
  "get_config only_good_ini ''missing.ini'' = Inl (ConfigurationException (NotFound ''missing.ini''))
   \<and> main recorder only_good_ini [''good.ini''] [] =
       (map (Pair ''good.ini'') (request_calls PIPELINES @ transform_commit_calls PIPELINES),
        [Built ''UserPipeline'', Built ''LabelPipeline'', Built ''MilestonePipeline'',
         Built ''IssuePipeline'', Built ''MergeRequestPipeline'', Built ''CommitPipeline'']
          @ map (\<lambda>(p, ph). Called p ph)
              (request_calls PIPELINES @ transform_commit_calls PIPELINES),
        None)
   \<and> main recorder only_good_ini ([''good.ini''] @ ''missing.ini'' # [''good.ini'']) [] =
       (map (Pair ''good.ini'') (request_calls PIPELINES @ transform_commit_calls PIPELINES),
        [Built ''UserPipeline'', Built ''LabelPipeline'', Built ''MilestonePipeline'',
         Built ''IssuePipeline'', Built ''MergeRequestPipeline'', Built ''CommitPipeline'']
          @ map (\<lambda>(p, ph). Called p ph)
              (request_calls PIPELINES @ transform_commit_calls PIPELINES),
        Some (ConfigurationException (NotFound ''missing.ini'')))"
proof -
  have 1: "get_config only_good_ini ''missing.ini''
      = Inl (ConfigurationException (NotFound ''missing.ini''))"
    by (rule get_config_missing)
  have 2: "main recorder only_good_ini [''good.ini''] [] =
       (map (Pair ''good.ini'') (request_calls PIPELINES @ transform_commit_calls PIPELINES),
        [Built ''UserPipeline'', Built ''LabelPipeline'', Built ''MilestonePipeline'',
         Built ''IssuePipeline'', Built ''MergeRequestPipeline'', Built ''CommitPipeline'']
          @ map (\<lambda>(p, ph). Called p ph)
              (request_calls PIPELINES @ transform_commit_calls PIPELINES),
        None)"
    by (simp add: main_def get_config_sample process_pipelines_recorder)
  show ?thesis
    using configuration_error_aborts_batch
      [OF 1, of recorder "[''good.ini'']" "[''good.ini'']" "[]"] 1 2
    by blast
qed

text \<open>With a missing file first and a valid file second, nothing is run for the valid
  file, which on its own would be processed.\<close>

theorem remaining_configuration_not_processed:
  "main no_failure only_good_ini [''missing.ini'', ''good.ini''] () =
     ([], (), Some (ConfigurationException (NotFound ''missing.ini'')))
   \<and> fst (main no_failure only_good_ini [''good.ini''] ()) \<noteq> []"
  by (simp add: main_def get_config_sample get_config_missing process_pipelines_no_failure
      request_calls_def PIPELINES_def)

section \<open>Resolution misses in the issue and commit pipelines\<close>

text \<open>
  Where the lookup is guarded (labels, milestone, commit author), a miss leaves the
  object as it is. Where it is not (author, assignees, assignee, closer of an issue),
  a miss hands \<open>None\<close> to \<open>update\<close>: no node is linked, and the relationship set holds
  \<open>None\<close>.
\<close>

lemma linked_rel_update_None: "linked (rel_update m r None) r' = linked m r'"
  by (simp add: linked_def targets_rel_update)

lemma issue_author_miss:
  assumes "py_get attributes ''author'' = PDict d" and "d \<noteq> []"
    and "map_of d ''id'' = Some a" and "match_first User g a = None"
  shows "issue_author g attributes m = Inr (rel_update m ''created_by'' None)"
  using assms by (simp add: issue_author_def link_user_def Let_def)

lemma issue_labels_miss:
  "\<forall>l \<in> set ls. label_match rx g l = None \<Longrightarrow> issue_labels rx g ls m = m"
  by (induction ls arbitrary: m) auto

lemma issue_milestone_miss:
  assumes "py_get attributes ''milestone'' = PDict d"
    and "map_of d ''id'' = Some a" and "match_first Milestone g a = None"
  shows "issue_milestone g attributes m = Inr m"
  using assms by (simp add: issue_milestone_def Let_def)

lemma commit_link_miss:
  assumes "py_get attributes key = PStr nm" and "snd (find_user g (Some nm)) = Inr None"
  shows "commit_link g attributes key r m = Inr m"
  using assms by (simp add: commit_link_def)

lemma issue_transform_unknown_author:
  "issue_transform rx []
     [(''id'', PInt 1), (''author'', PDict [(''id'', PInt 7)]), (''assignees'', PList []),
      (''labels'', PList [])]
   = ([\<lparr>label = Issue, nprops = [(''id'', PInt 1)]\<rparr>],
      Inr \<lparr>ident = 0, cls = Issue, props = [(''id'', PInt 1)],
           rels = [(''created_by'', [None])]\<rparr>)"
  by (simp add: issue_transform_def issue_relations_def bind_exn_def issue_author_def
      link_user_def match_first_def get_def passes_def py_get_def rel_update_def targets_def
      issue_assignee_def issue_closer_def issue_milestone_def issue_tasks_def
      Issue_fields_def Let_def graph_create_def)

end
